theory Spec2Isabelle
  imports Main
begin

section \<open>Errors\<close>

text \<open>
  A Go error value, as far as \<open>errors.Is\<close> can tell values apart:
  \<^item> a value made by \<open>errors.New\<close>: a pointer, so it has an identity of its own (the
    number) besides its text, and two values with the same text are different errors;
  \<^item> a wrapper made by \<open>fmt.Errorf("...: %w", err)\<close>, which keeps the error it wraps;
  \<^item> an error that wraps several (\<open>errors.Join\<close>, or \<open>fmt.Errorf\<close> with several
    \<open>%w\<close>);
  \<^item> an error of a type with an \<open>Is\<close> method of its own: the identities of the targets
    that the method answers true for, and the errors that its \<open>Unwrap\<close> gives.
\<close>

datatype go_error =
    ErrNew nat string
  | Errorf string go_error
  | ErrJoin string "go_error list"
  | ErrCustom string "nat list" "go_error list"

text \<open>
  \<open>err == target\<close>. The targets of the source are values of \<open>errors.New\<close>, which are
  equal when they are the same pointer; a wrapper is never the same value as such a target.
\<close>

fun same_error :: "go_error \<Rightarrow> go_error \<Rightarrow> bool" where
  "same_error (ErrNew i m) (ErrNew j n) = (i = j)"
| "same_error e target = False"

text \<open>What the \<open>Is\<close> method of an \<open>ErrCustom\<close> answers on a target.\<close>

fun is_method :: "nat list \<Rightarrow> go_error \<Rightarrow> bool" where
  "is_method ids (ErrNew j n) = (j \<in> set ids)"
| "is_method ids target = False"

text \<open>
  \<open>errors.Is(err, target)\<close>: at each error of the tree, the error is the target, or its
  \<open>Is\<close> method says so, or one of the errors it wraps matches.
\<close>

fun errors_is :: "go_error \<Rightarrow> go_error \<Rightarrow> bool" where
  "errors_is (ErrNew i m) target = same_error (ErrNew i m) target"
| "errors_is (Errorf p inner) target =
     (same_error (Errorf p inner) target \<or> errors_is inner target)"
| "errors_is (ErrJoin m es) target =
     (same_error (ErrJoin m es) target \<or> (\<exists>e \<in> set es. errors_is e target))"
| "errors_is (ErrCustom m ids es) target =
     (same_error (ErrCustom m ids es) target \<or> is_method ids target
      \<or> (\<exists>e \<in> set es. errors_is e target))"

text \<open>
  The two sentinels of package \<open>libreofficeapi\<close> that the PDF route tests for: two values
  of \<open>errors.New\<close>, so two identities.
\<close>

definition ErrInvalidPdfFormats :: go_error where
  "ErrInvalidPdfFormats = ErrNew 0 ''invalid PDF formats''"

definition ErrMalformedPageRanges :: go_error where
  "ErrMalformedPageRanges = ErrNew 1 ''page ranges are malformed''"

text \<open>
  What a handler returns when it fails: a plain error, an error wrapped together with a
  sentinel HTTP error (\<open>api.WrapError(err, api.NewSentinelHttpError(status, message))\<close>),
  or the run-time panic of an index out of range.
\<close>

datatype handler_error =
    Plain go_error
  | WrapError go_error nat string
  | IndexOutOfRange

definition StatusBadRequest :: nat where
  "StatusBadRequest = 400"

definition StatusInternalServerError :: nat where
  "StatusInternalServerError = 500"

section \<open>Data\<close>

record pdf_formats =
  PdfA :: string
  PdfUa :: bool

record options =
  Landscape :: bool
  PageRanges :: string
  ExportFormFields :: bool
  SinglePageSheets :: bool
  PdfFormats :: pdf_formats

text \<open>The zero value of a struct: the empty string and \<open>false\<close>.\<close>

definition zeroValued :: pdf_formats where
  "zeroValued = \<lparr>PdfA = [], PdfUa = False\<rparr>"

text \<open>
  The entries of the \<open>metadata\<close> map: keys with the JSON text of their values.
  \<open>len(metadata) > 0\<close> is that the list is not empty.
\<close>

type_synonym metadata_map = "(string \<times> string) list"

text \<open>
  The form as \<open>ctx.FormData()\<close> reads it: the value bound to each variable of the
  handler (defaults applied), the raw text of the \<open>metadata\<close> field (empty when the
  field is absent) and the errors recorded by the methods chained before \<open>Custom\<close>.
\<close>

record form =
  inputPaths :: "string list"
  landscape :: bool
  nativePageRanges :: string
  exportFormFields :: bool
  singlePageSheets :: bool
  pdfa :: string
  pdfua :: bool
  nativePdfFormats :: bool
  merge :: bool
  metadataValue :: string
  bindErrors :: "go_error list"

section \<open>The collaborators\<close>

text \<open>Every call that leaves the handler is an event, with the arguments of the call.\<close>

datatype event =
    is_pdf: EvPdf string string options
  | is_docx: EvDocx string string
  | is_merge: EvMerge "string list" string
  | is_convert: EvConvert pdf_formats string string
  | is_metadata: EvWriteMetadata metadata_map string
  | is_rename: EvRename string string
  | is_add: EvAddOutputPaths "string list"

text \<open>
  The collaborators are parameters of the model. \<open>respond\<close> is the error (or none) that
  a call returns, given every call made before it in the request; \<open>gen_path\<close> is the
  path that \<open>ctx.GeneratePath\<close> issues on its n-th call; \<open>json_unmarshal\<close> is
  \<open>json.Unmarshal\<close> into the metadata map, with the map it leaves behind;
  \<open>validate\<close> is \<open>FormData.Validate\<close> on the errors recorded while the form was read.
\<close>

record world =
  gen_path :: "nat \<Rightarrow> string \<Rightarrow> string"
  respond :: "event list \<Rightarrow> event \<Rightarrow> go_error option"
  json_unmarshal :: "string \<Rightarrow> go_error option \<times> metadata_map"
  validate :: "go_error list \<Rightarrow> go_error option"

text \<open>
  The request context: the calls made so far, the number of paths issued and the output
  paths handed to the response.
\<close>

record ctx =
  trace :: "event list"
  next_id :: nat
  output_paths :: "string list"

definition init_ctx :: ctx where
  "init_ctx = \<lparr>trace = [], next_id = 0, output_paths = []\<rparr>"

definition call :: "world \<Rightarrow> event \<Rightarrow> ctx \<Rightarrow> go_error option \<times> ctx" where
  "call w ev s = (respond w (trace s) ev, s\<lparr>trace := trace s @ [ev]\<rparr>)"

definition GeneratePath :: "world \<Rightarrow> string \<Rightarrow> ctx \<Rightarrow> string \<times> ctx" where
  "GeneratePath w ext s = (gen_path w (next_id s) ext, s\<lparr>next_id := Suc (next_id s)\<rparr>)"

definition AddOutputPaths :: "world \<Rightarrow> string list \<Rightarrow> ctx \<Rightarrow> go_error option \<times> ctx" where
  "AddOutputPaths w paths s =
     (case call w (EvAddOutputPaths paths) s of
        (Some e, s1) \<Rightarrow> (Some e, s1)
      | (None, s1) \<Rightarrow> (None, s1\<lparr>output_paths := output_paths s1 @ paths\<rparr>))"

section \<open>Range loops\<close>

text \<open>
  \<open>for i, x := range xs { ... }\<close> with a body that may return an error: the loop runs
  over the pairs of index and element, threads the variables the body assigns, and
  stops at the first error.
\<close>

fun for_range ::
  "(nat \<times> 'a \<Rightarrow> 'b \<Rightarrow> ctx \<Rightarrow> (handler_error + 'b) \<times> ctx) \<Rightarrow> (nat \<times> 'a) list \<Rightarrow> 'b \<Rightarrow> ctx
     \<Rightarrow> (handler_error + 'b) \<times> ctx" where
  "for_range body [] v s = (Inr v, s)"
| "for_range body (x # xs) v s =
     (case body x v s of
        (Inl e, s1) \<Rightarrow> (Inl e, s1)
      | (Inr v1, s1) \<Rightarrow> for_range body xs v1 s1)"

section \<open>The PDF route\<close>

text \<open>The closure given to \<open>Custom("metadata", ...)\<close>, with the map it assigns.\<close>

definition metadata_custom :: "world \<Rightarrow> string \<Rightarrow> go_error option \<times> metadata_map" where
  "metadata_custom w v =
     (if length v > 0 then
        (case json_unmarshal w v of
           (Some err, m) \<Rightarrow> (Some (Errorf ''unmarshal metadata: '' err), m)
         | (None, m) \<Rightarrow> (None, m))
      else (None, []))"

text \<open>
  \<open>fmt.Sprintf("%+v", pdfFormats)\<close>: the two fields of the struct by name, in braces,
  the string unquoted.
\<close>

definition show_pdf_formats :: "pdf_formats \<Rightarrow> string" where
  "show_pdf_formats p =
     ''{PdfA:'' @ PdfA p @ '' PdfUa:'' @ (if PdfUa p then ''true'' else ''false'') @ ''}''"

definition invalid_formats_message :: "pdf_formats \<Rightarrow> string" where
  "invalid_formats_message p =
     ''A PDF format in '' @ [CHR 0x27] @ show_pdf_formats p @ [CHR 0x27] @ '' is not supported''"

definition malformed_ranges_message :: "string \<Rightarrow> string" where
  "malformed_ranges_message r =
     ''Malformed page ranges '' @ [CHR 0x27] @ r @ [CHR 0x27] @ '' (nativePageRanges)''"

text \<open>\<open>pdfFormats := gotenberg.PdfFormats{PdfA: pdfa, PdfUa: pdfua}\<close> (lines 64 to 67).\<close>

definition formats_of :: "form \<Rightarrow> pdf_formats" where
  "formats_of f = \<lparr>PdfA = pdfa f, PdfUa = pdfua f\<rparr>"

definition pdf_options :: "form \<Rightarrow> pdf_formats \<Rightarrow> options" where
  "pdf_options f pdfFormats =
     (let opts = \<lparr>Landscape = landscape f, PageRanges = nativePageRanges f,
                  ExportFormFields = exportFormFields f,
                  SinglePageSheets = singlePageSheets f, PdfFormats = zeroValued\<rparr>
      in if nativePdfFormats f then opts\<lparr>PdfFormats := pdfFormats\<rparr> else opts)"

text \<open>The body of the conversion loop (lines 71 to 105).\<close>

definition pdf_body ::
  "world \<Rightarrow> form \<Rightarrow> pdf_formats \<Rightarrow> nat \<times> string \<Rightarrow> string list \<Rightarrow> ctx
     \<Rightarrow> (handler_error + string list) \<times> ctx" where
  "pdf_body w f pdfFormats = (\<lambda>(i, inputPath) outputPaths s.
     (case GeneratePath w ''.pdf'' s of (p, s1) \<Rightarrow>
        if \<not> i < length outputPaths then (Inl IndexOutOfRange, s1)
        else
          let outputPaths1 = outputPaths[i := p];
              opts = pdf_options f pdfFormats
          in (case call w (EvPdf inputPath (outputPaths1 ! i) opts) s1 of
                (Some err, s2) \<Rightarrow>
                  if errors_is err ErrInvalidPdfFormats then
                    (Inl (WrapError (Errorf ''convert to PDF: '' err) StatusBadRequest
                            (invalid_formats_message pdfFormats)), s2)
                  else if errors_is err ErrMalformedPageRanges then
                    (Inl (WrapError (Errorf ''convert to PDF: '' err) StatusBadRequest
                            (malformed_ranges_message (PageRanges opts))), s2)
                  else (Inl (Plain (Errorf ''convert to PDF: '' err)), s2)
              | (None, s2) \<Rightarrow> (Inr outputPaths1, s2))))"

definition pdf_stage ::
  "world \<Rightarrow> form \<Rightarrow> pdf_formats \<Rightarrow> ctx \<Rightarrow> (handler_error + string list) \<times> ctx" where
  "pdf_stage w f pdfFormats s =
     for_range (pdf_body w f pdfFormats) (enumerate 0 (inputPaths f))
       (replicate (length (inputPaths f)) []) s"

text \<open>The merge (lines 108 to 118).\<close>

definition merge_stage ::
  "world \<Rightarrow> form \<Rightarrow> string list \<Rightarrow> ctx \<Rightarrow> (handler_error + string list) \<times> ctx" where
  "merge_stage w f outputPaths s =
     (if length outputPaths > 1 \<and> merge f then
        (case GeneratePath w ''.pdf'' s of (outputPath, s1) \<Rightarrow>
           (case call w (EvMerge outputPaths outputPath) s1 of
              (Some err, s2) \<Rightarrow> (Inl (Plain (Errorf ''merge PDFs: '' err)), s2)
            | (None, s2) \<Rightarrow> (Inr [outputPath], s2)))
      else (Inr outputPaths, s))"

text \<open>The conversion to a PDF format by the engine (lines 122 to 138).\<close>

definition convert_body ::
  "world \<Rightarrow> pdf_formats \<Rightarrow> nat \<times> string \<Rightarrow> string list \<Rightarrow> ctx
     \<Rightarrow> (handler_error + string list) \<times> ctx" where
  "convert_body w pdfFormats = (\<lambda>(i, outputPath) convertOutputPaths s.
     (let convertInputPath = outputPath
      in case GeneratePath w ''.pdf'' s of (p, s1) \<Rightarrow>
        if \<not> i < length convertOutputPaths then (Inl IndexOutOfRange, s1)
        else
          let convertOutputPaths1 = convertOutputPaths[i := p]
          in (case call w (EvConvert pdfFormats convertInputPath (convertOutputPaths1 ! i)) s1 of
                (Some err, s2) \<Rightarrow> (Inl (Plain (Errorf ''convert PDF: '' err)), s2)
              | (None, s2) \<Rightarrow> (Inr convertOutputPaths1, s2))))"

definition convert_stage ::
  "world \<Rightarrow> form \<Rightarrow> pdf_formats \<Rightarrow> string list \<Rightarrow> ctx
     \<Rightarrow> (handler_error + string list) \<times> ctx" where
  "convert_stage w f pdfFormats outputPaths s =
     (if \<not> nativePdfFormats f \<and> pdfFormats \<noteq> zeroValued then
        for_range (convert_body w pdfFormats) (enumerate 0 outputPaths)
          (replicate (length outputPaths) []) s
      else (Inr outputPaths, s))"

text \<open>The metadata (lines 141 to 148).\<close>

definition metadata_body ::
  "world \<Rightarrow> metadata_map \<Rightarrow> nat \<times> string \<Rightarrow> unit \<Rightarrow> ctx \<Rightarrow> (handler_error + unit) \<times> ctx" where
  "metadata_body w metadata = (\<lambda>(i, outputPath) u s.
     (case call w (EvWriteMetadata metadata outputPath) s of
        (Some err, s1) \<Rightarrow> (Inl (Plain (Errorf ''write metadata: '' err)), s1)
      | (None, s1) \<Rightarrow> (Inr (), s1)))"

definition metadata_stage ::
  "world \<Rightarrow> metadata_map \<Rightarrow> string list \<Rightarrow> ctx \<Rightarrow> (handler_error + string list) \<times> ctx" where
  "metadata_stage w metadata outputPaths s =
     (if length metadata > 0 then
        (case for_range (metadata_body w metadata) (enumerate 0 outputPaths) () s of
           (Inl e, s1) \<Rightarrow> (Inl e, s1)
         | (Inr u, s1) \<Rightarrow> (Inr outputPaths, s1))
      else (Inr outputPaths, s))"

text \<open>
  The renaming (lines 150 to 162, and 215 to 227 with the other suffix): the loop runs
  over the input paths and indexes the output paths.
\<close>

definition rename_body ::
  "world \<Rightarrow> string \<Rightarrow> nat \<times> string \<Rightarrow> string list \<Rightarrow> ctx
     \<Rightarrow> (handler_error + string list) \<times> ctx" where
  "rename_body w suffix = (\<lambda>(i, inputPath) outputPaths s.
     (let outputPath = inputPath @ suffix
      in if \<not> i < length outputPaths then (Inl IndexOutOfRange, s)
         else
           (case call w (EvRename (outputPaths ! i) outputPath) s of
              (Some err, s1) \<Rightarrow> (Inl (Plain (Errorf ''rename output path: '' err)), s1)
            | (None, s1) \<Rightarrow> (Inr (outputPaths[i := outputPath]), s1))))"

definition rename_stage ::
  "world \<Rightarrow> string \<Rightarrow> string list \<Rightarrow> string list \<Rightarrow> ctx
     \<Rightarrow> (handler_error + string list) \<times> ctx" where
  "rename_stage w suffix inputs outputPaths s =
     (if length outputPaths > 1 then
        for_range (rename_body w suffix) (enumerate 0 inputs) outputPaths s
      else (Inr outputPaths, s))"

definition add_stage :: "world \<Rightarrow> string list \<Rightarrow> ctx \<Rightarrow> handler_error option \<times> ctx" where
  "add_stage w outputPaths s =
     (case AddOutputPaths w outputPaths s of
        (Some err, s1) \<Rightarrow> (Some (Plain (Errorf ''add output paths: '' err)), s1)
      | (None, s1) \<Rightarrow> (None, s1))"

text \<open>The handler of \<open>convertRoute\<close>, after the form has been validated.\<close>

definition pdf_pipeline ::
  "world \<Rightarrow> form \<Rightarrow> metadata_map \<Rightarrow> ctx \<Rightarrow> handler_error option \<times> ctx" where
  "pdf_pipeline w f metadata s =
     (let pdfFormats = formats_of f
      in case pdf_stage w f pdfFormats s of
           (Inl e, s1) \<Rightarrow> (Some e, s1)
         | (Inr outputPaths, s1) \<Rightarrow>
      (case merge_stage w f outputPaths s1 of
           (Inl e, s2) \<Rightarrow> (Some e, s2)
         | (Inr outputPaths, s2) \<Rightarrow>
      (case convert_stage w f pdfFormats outputPaths s2 of
           (Inl e, s3) \<Rightarrow> (Some e, s3)
         | (Inr outputPaths, s3) \<Rightarrow>
      (case metadata_stage w metadata outputPaths s3 of
           (Inl e, s4) \<Rightarrow> (Some e, s4)
         | (Inr outputPaths, s4) \<Rightarrow>
      (case rename_stage w ''.pdf'' (inputPaths f) outputPaths s4 of
           (Inl e, s5) \<Rightarrow> (Some e, s5)
         | (Inr outputPaths, s5) \<Rightarrow> add_stage w outputPaths s5)))))"

text \<open>The handler of \<open>convertRoute\<close>.\<close>

definition convertRoute :: "world \<Rightarrow> form \<Rightarrow> ctx \<Rightarrow> handler_error option \<times> ctx" where
  "convertRoute w f s =
     (case metadata_custom w (metadataValue f) of (cerr, metadata) \<Rightarrow>
        (case validate w (bindErrors f @ (case cerr of None \<Rightarrow> [] | Some e \<Rightarrow> [e])) of
           Some err \<Rightarrow> (Some (Plain (Errorf ''validate form data: '' err)), s)
         | None \<Rightarrow> pdf_pipeline w f metadata s))"

section \<open>The DOCX route\<close>

definition docx_body ::
  "world \<Rightarrow> nat \<times> string \<Rightarrow> string list \<Rightarrow> ctx \<Rightarrow> (handler_error + string list) \<times> ctx" where
  "docx_body w = (\<lambda>(i, inputPath) outputPaths s.
     (case GeneratePath w ''.docx'' s of (p, s1) \<Rightarrow>
        if \<not> i < length outputPaths then (Inl IndexOutOfRange, s1)
        else
          let outputPaths1 = outputPaths[i := p]
          in (case call w (EvDocx inputPath (outputPaths1 ! i)) s1 of
                (Some err, s2) \<Rightarrow>
                  (Inl (WrapError (Errorf ''convert to DOCX: '' err) StatusInternalServerError
                          ''Error''), s2)
              | (None, s2) \<Rightarrow> (Inr outputPaths1, s2))))"

definition docx_stage :: "world \<Rightarrow> form \<Rightarrow> ctx \<Rightarrow> (handler_error + string list) \<times> ctx" where
  "docx_stage w f s =
     for_range (docx_body w) (enumerate 0 (inputPaths f))
       (replicate (length (inputPaths f)) []) s"

text \<open>The handler of \<open>convertRouteDocx\<close>; it binds the input paths only.\<close>

definition convertRouteDocx :: "world \<Rightarrow> form \<Rightarrow> ctx \<Rightarrow> handler_error option \<times> ctx" where
  "convertRouteDocx w f s =
     (case validate w (bindErrors f) of
        Some err \<Rightarrow> (Some (Plain (Errorf ''validate form data: '' err)), s)
      | None \<Rightarrow>
     (case docx_stage w f s of
        (Inl e, s1) \<Rightarrow> (Some e, s1)
      | (Inr outputPaths, s1) \<Rightarrow>
     (case rename_stage w ''.docx'' (inputPaths f) outputPaths s1 of
        (Inl e, s2) \<Rightarrow> (Some e, s2)
      | (Inr outputPaths, s2) \<Rightarrow> add_stage w outputPaths s2)))"

section \<open>The calls a run makes\<close>

text \<open>
  Every path of a handler makes a list of calls that is fixed by the form and by the path
  allocator, up to the first call that fails. \<open>run_events\<close> makes the calls of such
  a list in order against the collaborators, and returns the failing call with its error, if
  any, and the calls made.
\<close>

fun run_events ::
  "world \<Rightarrow> event list \<Rightarrow> event list \<Rightarrow> (event \<times> go_error) option \<times> event list" where
  "run_events w h [] = (None, h)"
| "run_events w h (ev # evs) =
     (case respond w h ev of
        Some e \<Rightarrow> (Some (ev, e), h @ [ev])
      | None \<Rightarrow> run_events w (h @ [ev]) evs)"

text \<open>
  The paths that \<open>ctx.GeneratePath\<close> issues on k calls in a row, from the n-th.
\<close>

primrec gen_paths :: "world \<Rightarrow> string \<Rightarrow> nat \<Rightarrow> nat \<Rightarrow> string list" where
  "gen_paths w ext n 0 = []"
| "gen_paths w ext n (Suc k) = gen_path w n ext # gen_paths w ext (Suc n) k"

text \<open>
  What a handler returns when a call fails, by the call: the error wrapping written next to
  each call in the source.
\<close>

fun surface :: "form \<Rightarrow> event \<Rightarrow> go_error \<Rightarrow> handler_error" where
  "surface f (EvPdf i p opts) e =
     (if errors_is e ErrInvalidPdfFormats then
        WrapError (Errorf ''convert to PDF: '' e) StatusBadRequest
          (invalid_formats_message (formats_of f))
      else if errors_is e ErrMalformedPageRanges then
        WrapError (Errorf ''convert to PDF: '' e) StatusBadRequest
          (malformed_ranges_message (nativePageRanges f))
      else Plain (Errorf ''convert to PDF: '' e))"
| "surface f (EvDocx i p) e =
     WrapError (Errorf ''convert to DOCX: '' e) StatusInternalServerError ''Error''"
| "surface f (EvMerge ps p) e = Plain (Errorf ''merge PDFs: '' e)"
| "surface f (EvConvert fm i p) e = Plain (Errorf ''convert PDF: '' e)"
| "surface f (EvWriteMetadata m p) e = Plain (Errorf ''write metadata: '' e)"
| "surface f (EvRename a b) e = Plain (Errorf ''rename output path: '' e)"
| "surface f (EvAddOutputPaths ps) e = Plain (Errorf ''add output paths: '' e)"

text \<open>
  The errors recorded when the form is read (the ones of the methods chained before
  \<open>Custom\<close>, then the one of the \<open>metadata\<close> closure), and the metadata map that
  the closure leaves.
\<close>

definition form_errors :: "world \<Rightarrow> form \<Rightarrow> go_error list" where
  "form_errors w f =
     bindErrors f @ (case fst (metadata_custom w (metadataValue f)) of None \<Rightarrow> [] | Some e \<Rightarrow> [e])"

definition metadata_of :: "world \<Rightarrow> form \<Rightarrow> metadata_map" where
  "metadata_of w f = snd (metadata_custom w (metadataValue f))"

text \<open>
  The output paths after each stage of the PDF route when no call fails, from the number n
  of paths issued before: after the conversion loop, after the merge, after the engine's
  conversion, and at the end.
\<close>

definition outs_pdf :: "world \<Rightarrow> form \<Rightarrow> nat \<Rightarrow> string list" where
  "outs_pdf w f n = gen_paths w ''.pdf'' n (length (inputPaths f))"

definition merging :: "form \<Rightarrow> bool" where
  "merging f \<longleftrightarrow> length (inputPaths f) > 1 \<and> merge f"

definition id_merge :: "form \<Rightarrow> nat \<Rightarrow> nat" where
  "id_merge f n = n + length (inputPaths f)"

definition outs_merge :: "world \<Rightarrow> form \<Rightarrow> nat \<Rightarrow> string list" where
  "outs_merge w f n =
     (if merging f then [gen_path w (id_merge f n) ''.pdf''] else outs_pdf w f n)"

definition id_convert :: "form \<Rightarrow> nat \<Rightarrow> nat" where
  "id_convert f n = (if merging f then Suc (id_merge f n) else id_merge f n)"

definition normalizing :: "form \<Rightarrow> bool" where
  "normalizing f \<longleftrightarrow> \<not> nativePdfFormats f \<and> formats_of f \<noteq> zeroValued"

definition outs_convert :: "world \<Rightarrow> form \<Rightarrow> nat \<Rightarrow> string list" where
  "outs_convert w f n =
     (if normalizing f
      then gen_paths w ''.pdf'' (id_convert f n) (length (outs_merge w f n))
      else outs_merge w f n)"

definition outs_final :: "world \<Rightarrow> form \<Rightarrow> nat \<Rightarrow> string list" where
  "outs_final w f n =
     (if length (outs_convert w f n) > 1
      then map (\<lambda>i. i @ ''.pdf'') (inputPaths f)
      else outs_convert w f n)"

text \<open>
  The calls of each stage of the PDF route when no call fails, and the calls of the whole
  route: its plan.
\<close>

definition ev_pdf :: "world \<Rightarrow> form \<Rightarrow> nat \<Rightarrow> event list" where
  "ev_pdf w f n =
     map2 (\<lambda>i p. EvPdf i p (pdf_options f (formats_of f))) (inputPaths f) (outs_pdf w f n)"

definition ev_merge :: "world \<Rightarrow> form \<Rightarrow> nat \<Rightarrow> event list" where
  "ev_merge w f n =
     (if merging f then [EvMerge (outs_pdf w f n) (gen_path w (id_merge f n) ''.pdf'')] else [])"

definition ev_convert :: "world \<Rightarrow> form \<Rightarrow> nat \<Rightarrow> event list" where
  "ev_convert w f n =
     (if normalizing f
      then map2 (EvConvert (formats_of f)) (outs_merge w f n) (outs_convert w f n)
      else [])"

definition ev_metadata :: "world \<Rightarrow> form \<Rightarrow> metadata_map \<Rightarrow> nat \<Rightarrow> event list" where
  "ev_metadata w f md n =
     (if md \<noteq> [] then map (EvWriteMetadata md) (outs_convert w f n) else [])"

definition ev_rename :: "world \<Rightarrow> form \<Rightarrow> nat \<Rightarrow> event list" where
  "ev_rename w f n =
     (if length (outs_convert w f n) > 1
      then map2 (\<lambda>old i. EvRename old (i @ ''.pdf'')) (outs_convert w f n) (inputPaths f)
      else [])"

definition plan_pdf :: "world \<Rightarrow> form \<Rightarrow> metadata_map \<Rightarrow> nat \<Rightarrow> event list" where
  "plan_pdf w f md n =
     ev_pdf w f n @ ev_merge w f n @ ev_convert w f n @ ev_metadata w f md n
       @ ev_rename w f n @ [EvAddOutputPaths (outs_final w f n)]"

text \<open>
  The same for the DOCX route.
\<close>

definition outs_docx :: "world \<Rightarrow> form \<Rightarrow> nat \<Rightarrow> string list" where
  "outs_docx w f n = gen_paths w ''.docx'' n (length (inputPaths f))"

definition outs_final_docx :: "world \<Rightarrow> form \<Rightarrow> nat \<Rightarrow> string list" where
  "outs_final_docx w f n =
     (if length (outs_docx w f n) > 1
      then map (\<lambda>i. i @ ''.docx'') (inputPaths f)
      else outs_docx w f n)"

definition ev_docx :: "world \<Rightarrow> form \<Rightarrow> nat \<Rightarrow> event list" where
  "ev_docx w f n = map2 EvDocx (inputPaths f) (outs_docx w f n)"

definition ev_rename_docx :: "world \<Rightarrow> form \<Rightarrow> nat \<Rightarrow> event list" where
  "ev_rename_docx w f n =
     (if length (outs_docx w f n) > 1
      then map2 (\<lambda>old i. EvRename old (i @ ''.docx'')) (outs_docx w f n) (inputPaths f)
      else [])"

definition plan_docx :: "world \<Rightarrow> form \<Rightarrow> nat \<Rightarrow> event list" where
  "plan_docx w f n =
     ev_docx w f n @ ev_rename_docx w f n @ [EvAddOutputPaths (outs_final_docx w f n)]"

text \<open>
  A stage \<open>runs\<close> a list of calls when its effect on the context is the one of
  \<open>run_events\<close> on the list: it returns the wrapped error of the failing call, or the
  value v with n paths issued. A handler \<open>finishes\<close> a list of calls when, besides, it
  hands the output paths to the response exactly when no call fails.
\<close>

definition runs ::
  "world \<Rightarrow> form \<Rightarrow> ctx \<Rightarrow> event list \<Rightarrow> (handler_error + 'a) \<Rightarrow> ctx \<Rightarrow> 'a \<Rightarrow> nat \<Rightarrow> bool" where
  "runs w f s evs r s' v n \<longleftrightarrow>
     (\<exists>fail. run_events w (trace s) evs = (fail, trace s')
        \<and> output_paths s' = output_paths s
        \<and> (\<forall>ev e. fail = Some (ev, e) \<longrightarrow> r = Inl (surface f ev e))
        \<and> (fail = None \<longrightarrow> r = Inr v \<and> next_id s' = n))"

definition finishes ::
  "world \<Rightarrow> form \<Rightarrow> ctx \<Rightarrow> event list \<Rightarrow> string list \<Rightarrow> handler_error option \<times> ctx \<Rightarrow> bool" where
  "finishes w f s evs outs res \<longleftrightarrow>
     (\<exists>fail. run_events w (trace s) evs = (fail, trace (snd res))
        \<and> fst res = map_option (\<lambda>(ev, e). surface f ev e) fail
        \<and> output_paths (snd res) = output_paths s @ (if fail = None then outs else []))"

text \<open>
  The stage of a call, in the order of the stages in the source.
\<close>

fun stage_rank :: "event \<Rightarrow> nat" where
  "stage_rank (EvPdf i p opts) = 0"
| "stage_rank (EvDocx i p) = 0"
| "stage_rank (EvMerge ps p) = 1"
| "stage_rank (EvConvert fm i p) = 2"
| "stage_rank (EvWriteMetadata m p) = 3"
| "stage_rank (EvRename a b) = 4"
| "stage_rank (EvAddOutputPaths ps) = 5"

text \<open>
  An output path is derived from an input path through the calls of a trace when the
  Converter made a file from the input and each later call (the engine's conversion, the
  renaming) made the next file from the one before.
\<close>

inductive derived :: "event list \<Rightarrow> string \<Rightarrow> string \<Rightarrow> bool" for tr :: "event list" where
  by_pdf: "EvPdf a b opts \<in> set tr \<Longrightarrow> derived tr a b"
| by_docx: "EvDocx a b \<in> set tr \<Longrightarrow> derived tr a b"
| by_convert: "derived tr a b \<Longrightarrow> EvConvert fm b c \<in> set tr \<Longrightarrow> derived tr a c"
| by_rename: "derived tr a b \<Longrightarrow> EvRename b c \<in> set tr \<Longrightarrow> derived tr a c"

text \<open>
  The two normalizations, read off a trace: a Converter call that carries PDF formats, and
  a call of \<open>engine.Convert\<close>.
\<close>

fun natively_normalizes :: "event \<Rightarrow> bool" where
  "natively_normalizes (EvPdf i p opts) = (PdfFormats opts \<noteq> zeroValued)"
| "natively_normalizes ev = False"

definition native_normalized :: "event list \<Rightarrow> bool" where
  "native_normalized tr = list_ex natively_normalizes tr"

definition engine_normalized :: "event list \<Rightarrow> bool" where
  "engine_normalized tr = list_ex is_convert tr"

section \<open>Concrete collaborators and requests\<close>

text \<open>
  Worlds and forms on which the routes are run: a path allocator that issues
  \<open>/tmp/x\<close>, \<open>/tmp/xx\<close>, ... with the extension asked for, a form validation that
  reports the first recorded error, a JSON reader that knows two texts, and collaborators
  that succeed, or fail on one call.
\<close>

definition gen0 :: "nat \<Rightarrow> string \<Rightarrow> string" where
  "gen0 n ext = ''/tmp/'' @ replicate (Suc n) CHR ''x'' @ ext"

definition validate0 :: "go_error list \<Rightarrow> go_error option" where
  "validate0 errs = (case errs of [] \<Rightarrow> None | e # es \<Rightarrow> Some (Errorf ''invalid form data: '' e))"

definition quoted :: "string \<Rightarrow> string" where
  "quoted s = [CHR 0x22] @ s @ [CHR 0x22]"

definition meta_text :: string where
  "meta_text = ''{'' @ quoted ''Author'' @ '':'' @ quoted ''me'' @ ''}''"

definition json0 :: "string \<Rightarrow> go_error option \<times> metadata_map" where
  "json0 v =
     (if v = ''{}'' then (None, [])
      else if v = meta_text then (None, [(''Author'', quoted ''me'')])
      else (Some (ErrNew 2 ''invalid character''), []))"

definition world_ok :: world where
  "world_ok = \<lparr>gen_path = gen0, respond = (\<lambda>h ev. None), json_unmarshal = json0, validate = validate0\<rparr>"

definition world_fail_b :: world where
  "world_fail_b = world_ok\<lparr>respond := (\<lambda>h ev.
     case ev of EvPdf i p opts \<Rightarrow> if i = ''b.xlsx'' then Some (ErrNew 3 ''conversion failed'') else None
     | _ \<Rightarrow> None)\<rparr>"

definition world_bad_ranges :: world where
  "world_bad_ranges = world_ok\<lparr>respond := (\<lambda>h ev.
     case ev of EvPdf i p opts \<Rightarrow> Some (Errorf ''uno: '' ErrMalformedPageRanges)
     | _ \<Rightarrow> None)\<rparr>"

definition world_fail_rename :: world where
  "world_fail_rename = world_ok\<lparr>respond := (\<lambda>h ev.
     case ev of EvRename a b \<Rightarrow> if b = ''b.xlsx.pdf'' then Some (ErrNew 4 ''rename failed'') else None
     | _ \<Rightarrow> None)\<rparr>"

definition world_fail_docx :: world where
  "world_fail_docx = world_ok\<lparr>respond := (\<lambda>h ev.
     case ev of EvDocx i p \<Rightarrow> if i = ''b.hwp'' then Some ErrInvalidPdfFormats else None
     | _ \<Rightarrow> None)\<rparr>"

definition err_both :: go_error where
  "err_both = ErrJoin ''invalid PDF formats; page ranges are malformed''
     [ErrInvalidPdfFormats, ErrMalformedPageRanges]"

definition world_both :: world where
  "world_both = world_ok\<lparr>respond := (\<lambda>h ev.
     case ev of EvPdf i p opts \<Rightarrow> Some err_both
     | _ \<Rightarrow> None)\<rparr>"

definition world_same_text :: world where
  "world_same_text = world_ok\<lparr>respond := (\<lambda>h ev.
     case ev of EvPdf i p opts \<Rightarrow> Some (ErrNew 5 ''invalid PDF formats'')
     | _ \<Rightarrow> None)\<rparr>"

definition form_ab :: form where
  "form_ab = \<lparr>inputPaths = [''a.docx'', ''b.xlsx''], landscape = False, nativePageRanges = [],
     exportFormFields = True, singlePageSheets = False, pdfa = [], pdfua = False,
     nativePdfFormats = True, merge = False, metadataValue = [], bindErrors = []\<rparr>"

definition form_abc :: form where
  "form_abc = form_ab\<lparr>inputPaths := [''a.docx'', ''b.xlsx'', ''c.odt'']\<rparr>"

definition form_ranges :: form where
  "form_ranges = form_ab\<lparr>inputPaths := [''a.docx''], nativePageRanges := ''1-x''\<rparr>"

definition form_merge :: form where
  "form_merge = form_ab\<lparr>merge := True\<rparr>"

definition form_meta :: form where
  "form_meta = form_ab\<lparr>inputPaths := [''a.docx''], pdfa := ''PDF/A-1b'',
     nativePdfFormats := False, metadataValue := meta_text\<rparr>"

definition form_badmeta :: form where
  "form_badmeta = form_ab\<lparr>metadataValue := ''{Author:''\<rparr>"

definition form_hwp :: form where
  "form_hwp = form_ab\<lparr>inputPaths := [''a.hwp'', ''b.hwp'']\<rparr>"

definition opts_ab :: options where
  "opts_ab = \<lparr>Landscape = False, PageRanges = [], ExportFormFields = True,
     SinglePageSheets = False, PdfFormats = \<lparr>PdfA = [], PdfUa = False\<rparr>\<rparr>"

definition opts_ranges :: options where
  "opts_ranges = opts_ab\<lparr>PageRanges := ''1-x''\<rparr>"

definition fmt_a1b :: pdf_formats where
  "fmt_a1b = \<lparr>PdfA = ''PDF/A-1b'', PdfUa = False\<rparr>"

text \<open>
  The contexts that these runs end in.
\<close>

definition ctx_ok_ab :: ctx where
  "ctx_ok_ab = \<lparr>trace = [EvPdf ''a.docx'' ''/tmp/x.pdf'' opts_ab, EvPdf ''b.xlsx'' ''/tmp/xx.pdf'' opts_ab,
        EvRename ''/tmp/x.pdf'' ''a.docx.pdf'', EvRename ''/tmp/xx.pdf'' ''b.xlsx.pdf'',
        EvAddOutputPaths [''a.docx.pdf'', ''b.xlsx.pdf'']],
      next_id = 2, output_paths = [''a.docx.pdf'', ''b.xlsx.pdf'']\<rparr>"

definition ctx_merge :: ctx where
  "ctx_merge = \<lparr>trace = [EvPdf ''a.docx'' ''/tmp/x.pdf'' opts_ab, EvPdf ''b.xlsx'' ''/tmp/xx.pdf'' opts_ab,
        EvMerge [''/tmp/x.pdf'', ''/tmp/xx.pdf''] ''/tmp/xxx.pdf'',
        EvAddOutputPaths [''/tmp/xxx.pdf'']],
      next_id = 3, output_paths = [''/tmp/xxx.pdf'']\<rparr>"

definition ctx_meta :: ctx where
  "ctx_meta = \<lparr>trace = [EvPdf ''a.docx'' ''/tmp/x.pdf'' opts_ab,
        EvConvert fmt_a1b ''/tmp/x.pdf'' ''/tmp/xx.pdf'',
        EvWriteMetadata [(''Author'', quoted ''me'')] ''/tmp/xx.pdf'',
        EvAddOutputPaths [''/tmp/xx.pdf'']],
      next_id = 2, output_paths = [''/tmp/xx.pdf'']\<rparr>"

definition ctx_fail_b :: ctx where
  "ctx_fail_b = \<lparr>trace = [EvPdf ''a.docx'' ''/tmp/x.pdf'' opts_ab, EvPdf ''b.xlsx'' ''/tmp/xx.pdf'' opts_ab],
      next_id = 2, output_paths = []\<rparr>"

definition ctx_bad_ranges :: ctx where
  "ctx_bad_ranges = \<lparr>trace = [EvPdf ''a.docx'' ''/tmp/x.pdf'' opts_ranges],
      next_id = 1, output_paths = []\<rparr>"

definition ctx_fail_rename :: ctx where
  "ctx_fail_rename = \<lparr>trace = [EvPdf ''a.docx'' ''/tmp/x.pdf'' opts_ab, EvPdf ''b.xlsx'' ''/tmp/xx.pdf'' opts_ab,
        EvRename ''/tmp/x.pdf'' ''a.docx.pdf'', EvRename ''/tmp/xx.pdf'' ''b.xlsx.pdf''],
      next_id = 2, output_paths = []\<rparr>"

definition ctx_fail_docx :: ctx where
  "ctx_fail_docx = \<lparr>trace = [EvDocx ''a.hwp'' ''/tmp/x.docx'', EvDocx ''b.hwp'' ''/tmp/xx.docx''],
      next_id = 2, output_paths = []\<rparr>"

section \<open>The stages as runs of planned calls\<close>

subsection \<open>Runs of calls\<close>

lemma length_gen_paths [simp]: "length (gen_paths w ext n k) = k"
  by (induction k arbitrary: n) auto


lemma run_events_append:
  "run_events w h (xs @ ys) =
     (case run_events w h xs of
        (Some x, h1) \<Rightarrow> (Some x, h1)
      | (None, h1) \<Rightarrow> run_events w h1 ys)"
  by (induction xs arbitrary: h) (auto split: option.splits)

lemma run_events_ok: "run_events w h evs = (None, h1) \<Longrightarrow> h1 = h @ evs"
  by (induction evs arbitrary: h) (fastforce split: option.splits)+

lemma run_events_char:
  "run_events w h evs = (fail, tr) \<Longrightarrow>
     \<exists>new rest. evs = new @ rest \<and> tr = h @ new
       \<and> (\<forall>pre ev post. new = pre @ ev # post \<longrightarrow>
            respond w (h @ pre) ev = (if post = [] then map_option snd fail else None))
       \<and> (fail = None \<longrightarrow> rest = [])
       \<and> (\<forall>ev e. fail = Some (ev, e) \<longrightarrow> new \<noteq> [] \<and> last new = ev)"
proof (induction evs arbitrary: h)
  case Nil
  then show ?case by auto
next
  case (Cons a evs)
  show ?case
  proof (cases "respond w h a")
    case (Some e)
    with Cons.prems have "fail = Some (a, e)" and "tr = h @ [a]" by auto
    with Some show ?thesis
      by (intro exI [of _ "[a]"] exI [of _ evs]) (auto simp: Cons_eq_append_conv)
  next
    case None
    with Cons.prems have "run_events w (h @ [a]) evs = (fail, tr)" by simp
    from Cons.IH [OF this] obtain new rest where
      e: "evs = new @ rest" and t: "tr = (h @ [a]) @ new"
      and r: "\<And>pre ev post. new = pre @ ev # post \<Longrightarrow>
            respond w ((h @ [a]) @ pre) ev = (if post = [] then map_option snd fail else None)"
      and n: "fail = None \<longrightarrow> rest = []"
      and l: "\<And>ev e. fail = Some (ev, e) \<Longrightarrow> new \<noteq> [] \<and> last new = ev"
      by blast
    have "respond w (h @ pre) ev = (if post = [] then map_option snd fail else None)"
      if d: "a # new = pre @ ev # post" for pre ev post
    proof (cases pre)
      case Nil
      with d have "ev = a" and "post = new" by auto
      moreover have "new = [] \<Longrightarrow> fail = None"
        using l by (cases fail) auto
      ultimately show ?thesis using None Nil by auto
    next
      case (Cons b pre')
      with d have "b = a" and "new = pre' @ ev # post" by auto
      with r [of pre' ev post] Cons show ?thesis by simp
    qed
    with e t n l show ?thesis
      by (intro exI [of _ "a # new"] exI [of _ rest]) auto
  qed
qed

lemma run_events_failed_last:
  assumes "run_events w [] evs = (fail, tr)" and "tr = pre @ ev # post"
    and "respond w pre ev = Some e"
  shows "post = [] \<and> fail = Some (ev, e)"
proof -
  from run_events_char [OF assms(1)] obtain new rest where
    t: "tr = new"
    and r: "\<And>pre ev post. new = pre @ ev # post \<Longrightarrow>
            respond w pre ev = (if post = [] then map_option snd fail else None)"
    and l: "\<And>ev e. fail = Some (ev, e) \<Longrightarrow> new \<noteq> [] \<and> last new = ev"
    by auto
  from r [of pre ev post] t assms(2,3)
  have c: "(if post = [] then map_option snd fail else None) = Some e" by simp
  then have p: "post = []" by (auto split: if_splits)
  with c obtain ev' where f: "fail = Some (ev', e)" by (cases fail) auto
  from l [OF f] t assms(2) p have "ev' = ev" by auto
  with p f show ?thesis by simp
qed

lemma run_events_prefix:
  assumes "run_events w h evs = (fail, tr)"
  shows "\<exists>new rest. evs = new @ rest \<and> tr = h @ new \<and> (fail = None \<longrightarrow> rest = [])"
  using run_events_char [OF assms] by blast

lemma run_events_clean:
  assumes "run_events w [] evs = (fail, tr)" and "tr = pre @ ev # post" and "post \<noteq> [] \<or> fail = None"
  shows "respond w pre ev = None"
proof -
  from run_events_char [OF assms(1)] obtain new rest where
    t: "tr = new"
    and r: "\<And>pre ev post. new = pre @ ev # post \<Longrightarrow>
            respond w pre ev = (if post = [] then map_option snd fail else None)"
    by auto
  from r [of pre ev post] t assms(2,3) show ?thesis by auto
qed

lemma run_events_first_mem:
  assumes "run_events w h (ev # evs) = (fail, tr)"
  shows "ev \<in> set tr"
proof (cases "respond w h ev")
  case (Some e)
  with assms show ?thesis by auto
next
  case None
  with assms have "run_events w (h @ [ev]) evs = (fail, tr)" by simp
  from run_events_prefix [OF this] show ?thesis by auto
qed

lemma take_Suc_update:
  "i < length xs \<Longrightarrow> take (Suc i) (xs[i := p]) = take i xs @ [p]"
  by (simp add: take_Suc_conv_app_nth)

lemma map2_nth_mem:
  assumes "k < length xs" and "k < length ys"
  shows "g (xs ! k) (ys ! k) \<in> set (map2 g xs ys)"
proof -
  from assms have "(xs ! k, ys ! k) \<in> set (zip xs ys)"
    by (auto simp: set_zip)
  then show ?thesis by force
qed

subsection \<open>The loops\<close>

lemma alloc_loop:
  assumes body_eq: "\<And>i x outs s. body (i, x) outs s =
     (case GeneratePath w ext s of (p, s1) \<Rightarrow>
        if \<not> i < length outs then (Inl IndexOutOfRange, s1)
        else (case call w (mk x p) s1 of
                (Some err, s2) \<Rightarrow> (Inl (sf (mk x p) err), s2)
              | (None, s2) \<Rightarrow> (Inr (outs[i := p]), s2)))"
  shows "i + length xs \<le> length outs \<Longrightarrow>
     for_range body (enumerate i xs) outs s = (r, s') \<Longrightarrow>
     \<exists>fail. run_events w (trace s) (map2 mk xs (gen_paths w ext (next_id s) (length xs)))
               = (fail, trace s')
       \<and> output_paths s' = output_paths s
       \<and> (\<forall>ev e. fail = Some (ev, e) \<longrightarrow> r = Inl (sf ev e))
       \<and> (fail = None \<longrightarrow>
            r = Inr (take i outs @ gen_paths w ext (next_id s) (length xs)
                       @ drop (i + length xs) outs)
            \<and> next_id s' = next_id s + length xs)"
proof (induction xs arbitrary: i outs s)
  case Nil
  then show ?case by auto
next
  case (Cons x xs)
  let ?p = "gen_path w (next_id s) ext"
  let ?s1 = "s\<lparr>next_id := Suc (next_id s)\<rparr>"
  let ?s2 = "?s1\<lparr>trace := trace s @ [mk x ?p]\<rparr>"
  have i: "i < length outs" using Cons.prems(1) by simp
  show ?case
  proof (cases "respond w (trace s) (mk x ?p)")
    case (Some e)
    with Cons.prems i show ?thesis
      by (auto simp: body_eq GeneratePath_def call_def)
  next
    case None
    with Cons.prems i have run: "for_range body (enumerate (Suc i) xs) (outs[i := ?p]) ?s2 = (r, s')"
      by (auto simp: body_eq GeneratePath_def call_def)
    have len: "Suc i + length xs \<le> length (outs[i := ?p])" using Cons.prems(1) by simp
    show ?thesis
      using Cons.IH [OF len run] None i
      by (auto simp: take_Suc_update)
  qed
qed

lemma metadata_loop:
  "for_range (metadata_body w md) (enumerate i xs) u s = (r, s') \<Longrightarrow>
     \<exists>fail. run_events w (trace s) (map (EvWriteMetadata md) xs) = (fail, trace s')
       \<and> output_paths s' = output_paths s
       \<and> (\<forall>ev e. fail = Some (ev, e) \<longrightarrow> r = Inl (surface f ev e))
       \<and> (fail = None \<longrightarrow> r = Inr () \<and> next_id s' = next_id s)"
proof (induction xs arbitrary: i s)
  case Nil
  then show ?case by auto
next
  case (Cons x xs)
  let ?s1 = "s\<lparr>trace := trace s @ [EvWriteMetadata md x]\<rparr>"
  show ?case
  proof (cases "respond w (trace s) (EvWriteMetadata md x)")
    case (Some e)
    with Cons.prems show ?thesis
      by (auto simp: metadata_body_def call_def)
  next
    case None
    with Cons.prems have run:
      "for_range (metadata_body w md) (enumerate (Suc i) xs) u ?s1 = (r, s')"
      by (auto simp: metadata_body_def call_def)
    show ?thesis
      using Cons.IH [OF run] None by auto
  qed
qed

lemma rename_loop:
  "i + length xs \<le> length outs \<Longrightarrow>
   for_range (rename_body w suffix) (enumerate i xs) outs s = (r, s') \<Longrightarrow>
     \<exists>fail. run_events w (trace s)
               (map2 (\<lambda>old inp. EvRename old (inp @ suffix)) (take (length xs) (drop i outs)) xs)
               = (fail, trace s')
       \<and> output_paths s' = output_paths s
       \<and> (\<forall>ev e. fail = Some (ev, e) \<longrightarrow> r = Inl (surface f ev e))
       \<and> (fail = None \<longrightarrow>
            r = Inr (take i outs @ map (\<lambda>inp. inp @ suffix) xs @ drop (i + length xs) outs)
            \<and> next_id s' = next_id s)"
proof (induction xs arbitrary: i outs s)
  case Nil
  then show ?case by auto
next
  case (Cons x xs)
  let ?ev = "EvRename (outs ! i) (x @ suffix)"
  let ?s1 = "s\<lparr>trace := trace s @ [?ev]\<rparr>"
  have i: "i < length outs" using Cons.prems(1) by simp
  have tk: "take (Suc (length xs)) (drop i outs) = outs ! i # take (length xs) (drop (Suc i) outs)"
    using i by (simp add: Cons_nth_drop_Suc [symmetric])
  show ?case
  proof (cases "respond w (trace s) ?ev")
    case (Some e)
    with Cons.prems i show ?thesis
      by (auto simp: rename_body_def call_def tk Let_def)
  next
    case None
    with Cons.prems i have run:
      "for_range (rename_body w suffix) (enumerate (Suc i) xs) (outs[i := x @ suffix]) ?s1 = (r, s')"
      by (auto simp: rename_body_def call_def Let_def)
    have len: "Suc i + length xs \<le> length (outs[i := x @ suffix])" using Cons.prems(1) by simp
    show ?thesis
      using Cons.IH [OF len run] None i
      by (auto simp: take_Suc_update tk)
  qed
qed

subsection \<open>The stages\<close>

lemma bind_finishes:
  assumes "runs w f s evs (fst stage) (snd stage) v n"
    and "next_id (snd stage) = n \<Longrightarrow> finishes w f (snd stage) rest outs (k v (snd stage))"
  shows "finishes w f s (evs @ rest) outs
           (case stage of (Inl e, s1) \<Rightarrow> (Some e, s1) | (Inr v, s1) \<Rightarrow> k v s1)"
proof -
  obtain r1 s1 where st: "stage = (r1, s1)" by (cases stage)
  from assms(1) st obtain fail where
    r: "run_events w (trace s) evs = (fail, trace s1)"
    and o: "output_paths s1 = output_paths s"
    and fl: "\<And>ev e. fail = Some (ev, e) \<Longrightarrow> r1 = Inl (surface f ev e)"
    and ok: "fail = None \<Longrightarrow> r1 = Inr v \<and> next_id s1 = n"
    unfolding runs_def by auto
  show ?thesis
  proof (cases fail)
    case None
    with ok have r1: "r1 = Inr v" and n: "next_id s1 = n" by auto
    from assms(2) st n have "finishes w f s1 rest outs (k v s1)" by simp
    with r None o show ?thesis
      unfolding finishes_def st r1 by (simp add: run_events_append)
  next
    case (Some p)
    obtain ev e where p: "p = (ev, e)" by (cases p)
    from fl Some p have r1: "r1 = Inl (surface f ev e)" by simp
    from r Some p o show ?thesis
      unfolding finishes_def st r1 by (simp add: run_events_append)
  qed
qed

lemma pdf_body_eq:
  "pdf_body w f (formats_of f) (i, x) outs s =
     (case GeneratePath w ''.pdf'' s of (p, s1) \<Rightarrow>
        if \<not> i < length outs then (Inl IndexOutOfRange, s1)
        else (case call w (EvPdf x p (pdf_options f (formats_of f))) s1 of
                (Some err, s2) \<Rightarrow>
                  (Inl (surface f (EvPdf x p (pdf_options f (formats_of f))) err), s2)
              | (None, s2) \<Rightarrow> (Inr (outs[i := p]), s2)))"
  by (auto simp: pdf_body_def Let_def pdf_options_def split: prod.splits option.splits)

lemma convert_body_eq:
  "convert_body w fm (i, x) outs s =
     (case GeneratePath w ''.pdf'' s of (p, s1) \<Rightarrow>
        if \<not> i < length outs then (Inl IndexOutOfRange, s1)
        else (case call w (EvConvert fm x p) s1 of
                (Some err, s2) \<Rightarrow> (Inl (surface f (EvConvert fm x p) err), s2)
              | (None, s2) \<Rightarrow> (Inr (outs[i := p]), s2)))"
  by (auto simp: convert_body_def Let_def split: prod.splits option.splits)

lemma docx_body_eq:
  "docx_body w (i, x) outs s =
     (case GeneratePath w ''.docx'' s of (p, s1) \<Rightarrow>
        if \<not> i < length outs then (Inl IndexOutOfRange, s1)
        else (case call w (EvDocx x p) s1 of
                (Some err, s2) \<Rightarrow> (Inl (surface f (EvDocx x p) err), s2)
              | (None, s2) \<Rightarrow> (Inr (outs[i := p]), s2)))"
  by (auto simp: docx_body_def Let_def split: prod.splits option.splits)

lemma pdf_stage_runs:
  "runs w f s (ev_pdf w f (next_id s))
     (fst (pdf_stage w f (formats_of f) s)) (snd (pdf_stage w f (formats_of f) s))
     (outs_pdf w f (next_id s)) (id_merge f (next_id s))"
proof -
  obtain r s' where st: "pdf_stage w f (formats_of f) s = (r, s')"
    by (cases "pdf_stage w f (formats_of f) s")
  have len: "0 + length (inputPaths f) \<le> length (replicate (length (inputPaths f)) ([]::string))"
    by simp
  from alloc_loop [where body = "pdf_body w f (formats_of f)" and sf = "surface f", OF pdf_body_eq len
      st [unfolded pdf_stage_def]]
  show ?thesis
    unfolding runs_def st ev_pdf_def outs_pdf_def id_merge_def by simp
qed

lemma length_outs_pdf [simp]: "length (outs_pdf w f n) = length (inputPaths f)"
  by (simp add: outs_pdf_def)

lemma length_outs_merge:
  "length (outs_merge w f n) = (if merging f then 1 else length (inputPaths f))"
  by (simp add: outs_merge_def)

lemma length_outs_convert [simp]: "length (outs_convert w f n) = length (outs_merge w f n)"
  by (simp add: outs_convert_def)

lemma length_outs_final:
  "length (outs_final w f n) = (if merging f then 1 else length (inputPaths f))"
  by (auto simp: outs_final_def length_outs_merge)

lemma merge_stage_runs:
  assumes "next_id s = id_merge f n"
  shows "runs w f s (ev_merge w f n)
     (fst (merge_stage w f (outs_pdf w f n) s)) (snd (merge_stage w f (outs_pdf w f n) s))
     (outs_merge w f n) (id_convert f n)"
  using assms
  by (auto simp: runs_def merge_stage_def ev_merge_def outs_merge_def id_convert_def merging_def
      GeneratePath_def call_def split: option.splits)

lemma convert_stage_runs:
  assumes "next_id s = id_convert f n"
  shows "runs w f s (ev_convert w f n)
     (fst (convert_stage w f (formats_of f) (outs_merge w f n) s))
     (snd (convert_stage w f (formats_of f) (outs_merge w f n) s))
     (outs_convert w f n) (next_id (snd (convert_stage w f (formats_of f) (outs_merge w f n) s)))"
proof (cases "normalizing f")
  case False
  then show ?thesis
    by (auto simp: runs_def convert_stage_def ev_convert_def outs_convert_def normalizing_def)
next
  case True
  let ?outs = "outs_merge w f n"
  obtain r s' where st: "convert_stage w f (formats_of f) ?outs s = (r, s')"
    by (cases "convert_stage w f (formats_of f) ?outs s")
  with True have loop: "for_range (convert_body w (formats_of f)) (enumerate 0 ?outs)
      (replicate (length ?outs) []) s = (r, s')"
    by (simp add: convert_stage_def normalizing_def)
  have len: "0 + length ?outs \<le> length (replicate (length ?outs) ([]::string))"
    by simp
  from alloc_loop [where body = "convert_body w (formats_of f)" and sf = "surface f"
      and mk = "EvConvert (formats_of f)", OF convert_body_eq len loop]
  show ?thesis
    unfolding runs_def st using True assms
    by (auto simp: ev_convert_def outs_convert_def)
qed

lemma metadata_stage_runs:
  "runs w f s (ev_metadata w f md n)
     (fst (metadata_stage w md (outs_convert w f n) s))
     (snd (metadata_stage w md (outs_convert w f n) s))
     (outs_convert w f n) (next_id (snd (metadata_stage w md (outs_convert w f n) s)))"
proof (cases "md = []")
  case True
  then show ?thesis
    by (simp add: runs_def metadata_stage_def ev_metadata_def)
next
  case False
  let ?outs = "outs_convert w f n"
  obtain r s' where loop:
    "for_range (metadata_body w md) (enumerate 0 ?outs) () s = (r, s')"
    by (cases "for_range (metadata_body w md) (enumerate 0 ?outs) () s")
  from metadata_loop [OF loop, of f] False loop
  show ?thesis
    unfolding runs_def
    by (auto simp: metadata_stage_def ev_metadata_def split: sum.splits)
qed

lemma rename_stage_runs:
  assumes "length outs > 1 \<Longrightarrow> length outs = length inputs"
  shows "runs w f s
     (if length outs > 1 then map2 (\<lambda>old i. EvRename old (i @ suffix)) outs inputs else [])
     (fst (rename_stage w suffix inputs outs s)) (snd (rename_stage w suffix inputs outs s))
     (if length outs > 1 then map (\<lambda>i. i @ suffix) inputs else outs)
     (next_id (snd (rename_stage w suffix inputs outs s)))"
proof (cases "length outs > 1")
  case False
  then show ?thesis
    by (simp add: runs_def rename_stage_def)
next
  case True
  with assms have eq: "length outs = length inputs" by simp
  obtain r s' where st: "rename_stage w suffix inputs outs s = (r, s')"
    by (cases "rename_stage w suffix inputs outs s")
  with True have loop: "for_range (rename_body w suffix) (enumerate 0 inputs) outs s = (r, s')"
    by (simp add: rename_stage_def)
  have len: "0 + length inputs \<le> length outs" using eq by simp
  from rename_loop [OF len loop, of f]
  show ?thesis
    unfolding runs_def st using True eq by auto
qed

lemma add_stage_finishes: "finishes w f s [EvAddOutputPaths outs] outs (add_stage w outs s)"
proof (cases "respond w (trace s) (EvAddOutputPaths outs)")
  case None
  then show ?thesis
    by (simp add: finishes_def add_stage_def AddOutputPaths_def call_def)
next
  case (Some e)
  then show ?thesis
    by (simp add: finishes_def add_stage_def AddOutputPaths_def call_def)
qed

lemma pdf_rename_runs:
  "runs w f s (ev_rename w f n)
     (fst (rename_stage w ''.pdf'' (inputPaths f) (outs_convert w f n) s))
     (snd (rename_stage w ''.pdf'' (inputPaths f) (outs_convert w f n) s))
     (outs_final w f n)
     (next_id (snd (rename_stage w ''.pdf'' (inputPaths f) (outs_convert w f n) s)))"
proof -
  have "length (outs_convert w f n) > 1 \<Longrightarrow> length (outs_convert w f n) = length (inputPaths f)"
    by (simp add: length_outs_merge split: if_splits)
  from rename_stage_runs [OF this, of w f s "''.pdf''"]
  show ?thesis
    by (simp add: ev_rename_def outs_final_def)
qed

lemma docx_stage_runs:
  "runs w f s (ev_docx w f (next_id s))
     (fst (docx_stage w f s)) (snd (docx_stage w f s))
     (outs_docx w f (next_id s)) (next_id (snd (docx_stage w f s)))"
proof -
  obtain r s' where st: "docx_stage w f s = (r, s')"
    by (cases "docx_stage w f s")
  have len: "0 + length (inputPaths f) \<le> length (replicate (length (inputPaths f)) ([]::string))"
    by simp
  from alloc_loop [where body = "docx_body w" and sf = "surface f" and mk = EvDocx,
      OF docx_body_eq len st [unfolded docx_stage_def]]
  show ?thesis
    unfolding runs_def st outs_docx_def ev_docx_def by auto
qed

lemma docx_rename_runs:
  "runs w f s (ev_rename_docx w f n)
     (fst (rename_stage w ''.docx'' (inputPaths f) (outs_docx w f n) s))
     (snd (rename_stage w ''.docx'' (inputPaths f) (outs_docx w f n) s))
     (outs_final_docx w f n)
     (next_id (snd (rename_stage w ''.docx'' (inputPaths f) (outs_docx w f n) s)))"
proof -
  have "length (outs_docx w f n) > 1 \<Longrightarrow> length (outs_docx w f n) = length (inputPaths f)"
    by (simp add: outs_docx_def)
  from rename_stage_runs [OF this, of w f s "''.docx''"]
  show ?thesis
    by (simp add: outs_final_docx_def ev_rename_docx_def)
qed

subsection \<open>The routes\<close>

lemma pdf_pipeline_finishes:
  "finishes w f s (plan_pdf w f md (next_id s)) (outs_final w f (next_id s))
     (pdf_pipeline w f md s)"
  unfolding pdf_pipeline_def plan_pdf_def Let_def
  apply (rule bind_finishes [OF pdf_stage_runs])
  apply (rule bind_finishes [OF merge_stage_runs], assumption)
  apply (rule bind_finishes [OF convert_stage_runs], assumption)
  apply (rule bind_finishes [OF metadata_stage_runs])
  apply (rule bind_finishes [OF pdf_rename_runs])
  apply (rule add_stage_finishes)
  done

lemma convertRoute_cases:
  assumes "convertRoute w f s = (r, s')"
  shows "(\<exists>ve. validate w (form_errors w f) = Some ve
            \<and> r = Some (Plain (Errorf ''validate form data: '' ve)) \<and> s' = s)
       \<or> (validate w (form_errors w f) = None
            \<and> finishes w f s (plan_pdf w f (metadata_of w f) (next_id s))
                 (outs_final w f (next_id s)) (r, s'))"
proof (cases "validate w (form_errors w f)")
  case (Some ve)
  with assms show ?thesis
    by (auto simp: convertRoute_def form_errors_def split: prod.splits)
next
  case None
  with assms have "pdf_pipeline w f (metadata_of w f) s = (r, s')"
    by (auto simp: convertRoute_def form_errors_def metadata_of_def split: prod.splits)
  with pdf_pipeline_finishes [of w f s "metadata_of w f"] None show ?thesis by simp
qed

lemma convertRouteDocx_cases:
  assumes "convertRouteDocx w f s = (r, s')"
  shows "(\<exists>ve. validate w (bindErrors f) = Some ve
            \<and> r = Some (Plain (Errorf ''validate form data: '' ve)) \<and> s' = s)
       \<or> (validate w (bindErrors f) = None
            \<and> finishes w f s (plan_docx w f (next_id s)) (outs_final_docx w f (next_id s)) (r, s'))"
proof (cases "validate w (bindErrors f)")
  case (Some ve)
  with assms show ?thesis
    by (auto simp: convertRouteDocx_def)
next
  case None
  have "finishes w f s (plan_docx w f (next_id s)) (outs_final_docx w f (next_id s))
     (case docx_stage w f s of
        (Inl e, s1) \<Rightarrow> (Some e, s1)
      | (Inr outputPaths, s1) \<Rightarrow>
     (case rename_stage w ''.docx'' (inputPaths f) outputPaths s1 of
        (Inl e, s2) \<Rightarrow> (Some e, s2)
      | (Inr outputPaths, s2) \<Rightarrow> add_stage w outputPaths s2))"
    unfolding plan_docx_def
    apply (rule bind_finishes [OF docx_stage_runs])
    apply (rule bind_finishes [OF docx_rename_runs])
    apply (rule add_stage_finishes)
    done
  with assms None show ?thesis
    by (simp add: convertRouteDocx_def)
qed

lemma convertRoute_prefix:
  assumes "convertRoute w f init_ctx = (r, s')"
  shows "\<exists>rest. plan_pdf w f (metadata_of w f) 0 = trace s' @ rest
     \<and> (r = None \<longrightarrow> rest = [] \<and> output_paths s' = outs_final w f 0)"
proof -
  from convertRoute_cases [OF assms]
  show ?thesis
  proof
    assume "\<exists>ve. validate w (form_errors w f) = Some ve
      \<and> r = Some (Plain (Errorf ''validate form data: '' ve)) \<and> s' = init_ctx"
    then show ?thesis by (auto simp: init_ctx_def)
  next
    assume "validate w (form_errors w f) = None
      \<and> finishes w f init_ctx (plan_pdf w f (metadata_of w f) (next_id init_ctx))
           (outs_final w f (next_id init_ctx)) (r, s')"
    then obtain fail where
      run: "run_events w [] (plan_pdf w f (metadata_of w f) 0) = (fail, trace s')"
      and r: "r = map_option (\<lambda>(ev, e). surface f ev e) fail"
      and o: "output_paths s' = (if fail = None then outs_final w f 0 else [])"
      by (auto simp: finishes_def init_ctx_def)
    from run_events_prefix [OF run] r o show ?thesis by auto
  qed
qed

lemma convertRouteDocx_prefix:
  assumes "convertRouteDocx w f init_ctx = (r, s')"
  shows "\<exists>rest. plan_docx w f 0 = trace s' @ rest
     \<and> (r = None \<longrightarrow> rest = [] \<and> output_paths s' = outs_final_docx w f 0)"
proof -
  from convertRouteDocx_cases [OF assms]
  show ?thesis
  proof
    assume "\<exists>ve. validate w (bindErrors f) = Some ve
      \<and> r = Some (Plain (Errorf ''validate form data: '' ve)) \<and> s' = init_ctx"
    then show ?thesis by (auto simp: init_ctx_def)
  next
    assume "validate w (bindErrors f) = None
      \<and> finishes w f init_ctx (plan_docx w f (next_id init_ctx))
           (outs_final_docx w f (next_id init_ctx)) (r, s')"
    then obtain fail where
      run: "run_events w [] (plan_docx w f 0) = (fail, trace s')"
      and r: "r = map_option (\<lambda>(ev, e). surface f ev e) fail"
      and o: "output_paths s' = (if fail = None then outs_final_docx w f 0 else [])"
      by (auto simp: finishes_def init_ctx_def)
    from run_events_prefix [OF run] r o show ?thesis by auto
  qed
qed

lemma convertRoute_failure:
  assumes "convertRoute w f init_ctx = (r, s')" and "trace s' = pre @ ev # post"
    and "respond w pre ev = Some e"
  shows "post = [] \<and> r = Some (surface f ev e) \<and> output_paths s' = []"
proof -
  from convertRoute_cases [OF assms(1)] assms(2)
  have "finishes w f init_ctx (plan_pdf w f (metadata_of w f) (next_id init_ctx))
          (outs_final w f (next_id init_ctx)) (r, s')"
    by (auto simp: init_ctx_def)
  then obtain fail where
    run: "run_events w [] (plan_pdf w f (metadata_of w f) (next_id init_ctx)) = (fail, trace s')"
    and r: "r = map_option (\<lambda>(ev, e). surface f ev e) fail"
    and o: "output_paths s' = (if fail = None then outs_final w f (next_id init_ctx) else [])"
    by (auto simp: finishes_def init_ctx_def)
  from run_events_failed_last [OF run assms(2,3)] r o show ?thesis by simp
qed

lemma convertRouteDocx_failure:
  assumes "convertRouteDocx w f init_ctx = (r, s')" and "trace s' = pre @ ev # post"
    and "respond w pre ev = Some e"
  shows "post = [] \<and> r = Some (surface f ev e) \<and> output_paths s' = []"
proof -
  from convertRouteDocx_cases [OF assms(1)] assms(2)
  have "finishes w f init_ctx (plan_docx w f (next_id init_ctx))
          (outs_final_docx w f (next_id init_ctx)) (r, s')"
    by (auto simp: init_ctx_def)
  then obtain fail where
    run: "run_events w [] (plan_docx w f (next_id init_ctx)) = (fail, trace s')"
    and r: "r = map_option (\<lambda>(ev, e). surface f ev e) fail"
    and o: "output_paths s' = (if fail = None then outs_final_docx w f (next_id init_ctx) else [])"
    by (auto simp: finishes_def init_ctx_def)
  from run_events_failed_last [OF run assms(2,3)] r o show ?thesis by simp
qed

lemma convertRoute_earlier_ok:
  assumes "convertRoute w f init_ctx = (r, s')" and "trace s' = pre @ ev # post"
    and "post \<noteq> []"
  shows "respond w pre ev = None"
proof -
  from convertRoute_cases [OF assms(1)] assms(2)
  have "finishes w f init_ctx (plan_pdf w f (metadata_of w f) (next_id init_ctx))
          (outs_final w f (next_id init_ctx)) (r, s')"
    by (auto simp: init_ctx_def)
  then obtain fail where
    run: "run_events w [] (plan_pdf w f (metadata_of w f) (next_id init_ctx)) = (fail, trace s')"
    by (auto simp: finishes_def init_ctx_def)
  from run_events_clean [OF run assms(2)] assms(3) show ?thesis by simp
qed

lemma convertRouteDocx_earlier_ok:
  assumes "convertRouteDocx w f init_ctx = (r, s')" and "trace s' = pre @ ev # post"
    and "post \<noteq> []"
  shows "respond w pre ev = None"
proof -
  from convertRouteDocx_cases [OF assms(1)] assms(2)
  have "finishes w f init_ctx (plan_docx w f (next_id init_ctx))
          (outs_final_docx w f (next_id init_ctx)) (r, s')"
    by (auto simp: init_ctx_def)
  then obtain fail where
    run: "run_events w [] (plan_docx w f (next_id init_ctx)) = (fail, trace s')"
    by (auto simp: finishes_def init_ctx_def)
  from run_events_clean [OF run assms(2)] assms(3) show ?thesis by simp
qed

lemma convertRoute_error_outputs:
  assumes "convertRoute w f init_ctx = (Some e, s')"
  shows "output_paths s' = []"
proof -
  from convertRoute_cases [OF assms]
  show ?thesis
  proof
    assume "\<exists>ve. validate w (form_errors w f) = Some ve
      \<and> Some e = Some (Plain (Errorf ''validate form data: '' ve)) \<and> s' = init_ctx"
    then show ?thesis by (auto simp: init_ctx_def)
  next
    assume "validate w (form_errors w f) = None
      \<and> finishes w f init_ctx (plan_pdf w f (metadata_of w f) (next_id init_ctx))
           (outs_final w f (next_id init_ctx)) (Some e, s')"
    then obtain fail where
      r: "Some e = map_option (\<lambda>(ev, e). surface f ev e) fail"
      and o: "output_paths s' = (if fail = None then outs_final w f 0 else [])"
      by (auto simp: finishes_def init_ctx_def)
    from r have "fail \<noteq> None" by (cases fail) simp_all
    with o show ?thesis by simp
  qed
qed

lemma surface_no_panic: "surface f ev e \<noteq> IndexOutOfRange"
  by (cases ev) auto

lemma convertRoute_no_panic:
  assumes "convertRoute w f init_ctx = (r, s')"
  shows "r \<noteq> Some IndexOutOfRange"
proof -
  from convertRoute_cases [OF assms]
  show ?thesis
  proof
    assume "\<exists>ve. validate w (form_errors w f) = Some ve
      \<and> r = Some (Plain (Errorf ''validate form data: '' ve)) \<and> s' = init_ctx"
    then show ?thesis by auto
  next
    assume "validate w (form_errors w f) = None
      \<and> finishes w f init_ctx (plan_pdf w f (metadata_of w f) (next_id init_ctx))
           (outs_final w f (next_id init_ctx)) (r, s')"
    then obtain fail where r: "r = map_option (\<lambda>(ev, e). surface f ev e) fail"
      by (auto simp: finishes_def)
    show ?thesis
    proof (cases fail)
      case None
      with r show ?thesis by simp
    next
      case (Some x)
      obtain ev e where "x = (ev, e)" by (cases x)
      with r Some surface_no_panic [of f ev e] show ?thesis by simp
    qed
  qed
qed

lemma convertRouteDocx_no_panic:
  assumes "convertRouteDocx w f init_ctx = (r, s')"
  shows "r \<noteq> Some IndexOutOfRange"
proof -
  from convertRouteDocx_cases [OF assms]
  show ?thesis
  proof
    assume "\<exists>ve. validate w (bindErrors f) = Some ve
      \<and> r = Some (Plain (Errorf ''validate form data: '' ve)) \<and> s' = init_ctx"
    then show ?thesis by auto
  next
    assume "validate w (bindErrors f) = None
      \<and> finishes w f init_ctx (plan_docx w f (next_id init_ctx))
           (outs_final_docx w f (next_id init_ctx)) (r, s')"
    then obtain fail where r: "r = map_option (\<lambda>(ev, e). surface f ev e) fail"
      by (auto simp: finishes_def)
    show ?thesis
    proof (cases fail)
      case None
      with r show ?thesis by simp
    next
      case (Some x)
      obtain ev e where "x = (ev, e)" by (cases x)
      with r Some surface_no_panic [of f ev e] show ?thesis by simp
    qed
  qed
qed

subsection \<open>The calls of a plan\<close>

lemma in_ev_pdf:
  "ev \<in> set (ev_pdf w f n) \<Longrightarrow>
     \<exists>i p. ev = EvPdf i p (pdf_options f (formats_of f)) \<and> i \<in> set (inputPaths f)"
  by (auto simp: ev_pdf_def dest: set_zip_leftD)

lemma in_ev_merge:
  "ev \<in> set (ev_merge w f n) \<Longrightarrow>
     merging f \<and> ev = EvMerge (outs_pdf w f n) (gen_path w (id_merge f n) ''.pdf'')"
  by (auto simp: ev_merge_def split: if_splits)

lemma in_ev_convert:
  "ev \<in> set (ev_convert w f n) \<Longrightarrow>
     normalizing f \<and> (\<exists>q p. ev = EvConvert (formats_of f) q p)"
  by (auto simp: ev_convert_def split: if_splits)

lemma in_ev_metadata:
  "ev \<in> set (ev_metadata w f md n) \<Longrightarrow>
     md \<noteq> [] \<and> (\<exists>p \<in> set (outs_convert w f n). ev = EvWriteMetadata md p)"
  by (auto simp: ev_metadata_def split: if_splits)

lemma in_ev_rename:
  "ev \<in> set (ev_rename w f n) \<Longrightarrow> \<exists>a b. ev = EvRename a b"
  by (auto simp: ev_rename_def split: if_splits)

lemma in_plan_pdf:
  "ev \<in> set (plan_pdf w f md n) \<Longrightarrow>
     ev \<in> set (ev_pdf w f n) \<or> ev \<in> set (ev_merge w f n) \<or> ev \<in> set (ev_convert w f n)
     \<or> ev \<in> set (ev_metadata w f md n) \<or> ev \<in> set (ev_rename w f n)
     \<or> ev = EvAddOutputPaths (outs_final w f n)"
  by (auto simp: plan_pdf_def)

lemma pdf_event_options:
  assumes "convertRoute w f init_ctx = (r, s')" and "EvPdf i p opts \<in> set (trace s')"
  shows "opts = pdf_options f (formats_of f) \<and> i \<in> set (inputPaths f)"
proof -
  from convertRoute_prefix [OF assms(1)] assms(2)
  have "EvPdf i p opts \<in> set (plan_pdf w f (metadata_of w f) 0)" by auto
  from in_plan_pdf [OF this] show ?thesis
    by (auto dest: in_ev_pdf in_ev_merge in_ev_convert in_ev_metadata in_ev_rename)
qed

subsection \<open>The order of the stages\<close>

lemma sorted_const: "(\<And>x. x \<in> set xs \<Longrightarrow> g x = (c::nat)) \<Longrightarrow> sorted (map g xs)"
  by (induction xs) auto

lemma rank_ev_pdf: "ev \<in> set (ev_pdf w f n) \<Longrightarrow> stage_rank ev = 0"
  by (auto dest: in_ev_pdf)

lemma rank_ev_merge: "ev \<in> set (ev_merge w f n) \<Longrightarrow> stage_rank ev = 1"
  by (auto dest: in_ev_merge)

lemma rank_ev_convert: "ev \<in> set (ev_convert w f n) \<Longrightarrow> stage_rank ev = 2"
  by (auto dest: in_ev_convert)

lemma rank_ev_metadata: "ev \<in> set (ev_metadata w f md n) \<Longrightarrow> stage_rank ev = 3"
  by (auto dest: in_ev_metadata)

lemma rank_ev_rename: "ev \<in> set (ev_rename w f n) \<Longrightarrow> stage_rank ev = 4"
  by (auto dest: in_ev_rename)

lemma sorted_ev_pdf: "sorted (map stage_rank (ev_pdf w f n))"
  by (rule sorted_const [where c = 0]) (rule rank_ev_pdf)

lemma sorted_ev_merge: "sorted (map stage_rank (ev_merge w f n))"
  by (rule sorted_const [where c = 1]) (rule rank_ev_merge)

lemma sorted_ev_convert: "sorted (map stage_rank (ev_convert w f n))"
  by (rule sorted_const [where c = 2]) (rule rank_ev_convert)

lemma sorted_ev_metadata: "sorted (map stage_rank (ev_metadata w f md n))"
  by (rule sorted_const [where c = 3]) (rule rank_ev_metadata)

lemma sorted_ev_rename: "sorted (map stage_rank (ev_rename w f n))"
  by (rule sorted_const [where c = 4]) (rule rank_ev_rename)

lemma plan_pdf_sorted: "sorted (map stage_rank (plan_pdf w f md n))"
  unfolding plan_pdf_def
  by (auto simp: sorted_append sorted_ev_pdf sorted_ev_merge sorted_ev_convert
      sorted_ev_metadata sorted_ev_rename rank_ev_pdf rank_ev_merge rank_ev_convert
      rank_ev_metadata rank_ev_rename)

lemma in_ev_docx: "ev \<in> set (ev_docx w f n) \<Longrightarrow> \<exists>i p. ev = EvDocx i p"
  by (auto simp: ev_docx_def)

lemma in_ev_rename_docx: "ev \<in> set (ev_rename_docx w f n) \<Longrightarrow> \<exists>a b. ev = EvRename a b"
  by (auto simp: ev_rename_docx_def split: if_splits)

lemma in_plan_docx:
  "ev \<in> set (plan_docx w f n) \<Longrightarrow>
     ev \<in> set (ev_docx w f n) \<or> ev \<in> set (ev_rename_docx w f n)
     \<or> ev = EvAddOutputPaths (outs_final_docx w f n)"
  by (auto simp: plan_docx_def)

lemma rank_ev_docx: "ev \<in> set (ev_docx w f n) \<Longrightarrow> stage_rank ev = 0"
  by (auto dest: in_ev_docx)

lemma rank_ev_rename_docx: "ev \<in> set (ev_rename_docx w f n) \<Longrightarrow> stage_rank ev = 4"
  by (auto dest: in_ev_rename_docx)

lemma sorted_ev_docx: "sorted (map stage_rank (ev_docx w f n))"
  by (rule sorted_const [where c = 0]) (rule rank_ev_docx)

lemma sorted_ev_rename_docx: "sorted (map stage_rank (ev_rename_docx w f n))"
  by (rule sorted_const [where c = 4]) (rule rank_ev_rename_docx)

lemma plan_docx_sorted: "sorted (map stage_rank (plan_docx w f n))"
  unfolding plan_docx_def
  by (auto simp: sorted_append sorted_ev_docx sorted_ev_rename_docx rank_ev_docx
      rank_ev_rename_docx)

lemma sorted_rank_before:
  assumes "sorted (map stage_rank (pre @ ev # post))" and "x \<in> set pre"
  shows "stage_rank x \<le> stage_rank ev"
  using assms by (auto simp: sorted_append)

lemma sorted_rank_after:
  assumes "sorted (map stage_rank (pre @ ev # post))" and "x \<in> set post"
  shows "stage_rank ev \<le> stage_rank x"
  using assms by (auto simp: sorted_append)

lemma convertRoute_sorted:
  assumes "convertRoute w f init_ctx = (r, s')"
  shows "sorted (map stage_rank (trace s'))"
proof -
  from convertRoute_prefix [OF assms] obtain rest where
    "plan_pdf w f (metadata_of w f) 0 = trace s' @ rest" by auto
  with plan_pdf_sorted [of w f "metadata_of w f" 0] show ?thesis
    by (simp add: sorted_append)
qed

lemma convertRouteDocx_sorted:
  assumes "convertRouteDocx w f init_ctx = (r, s')"
  shows "sorted (map stage_rank (trace s'))"
proof -
  from convertRouteDocx_prefix [OF assms] obtain rest where
    "plan_docx w f 0 = trace s' @ rest" by auto
  with plan_docx_sorted [of w f 0] show ?thesis
    by (simp add: sorted_append)
qed

lemma no_add_before_rename:
  assumes "sorted (map stage_rank tr)" and "tr = pre @ [EvRename a b]"
  shows "\<forall>ev \<in> set tr. \<not> is_add ev"
proof
  fix ev assume "ev \<in> set tr"
  with assms(2) have "ev = EvRename a b \<or> ev \<in> set pre" by auto
  then show "\<not> is_add ev"
  proof
    assume "ev = EvRename a b" then show ?thesis by simp
  next
    assume "ev \<in> set pre"
    moreover from assms have "sorted (map stage_rank (pre @ EvRename a b # []))" by simp
    ultimately have "stage_rank ev \<le> stage_rank (EvRename a b)"
      by (rule sorted_rank_before [rotated])
    then show ?thesis by (cases ev) auto
  qed
qed

subsection \<open>Outputs and their inputs\<close>

lemma derived_plan_pdf:
  assumes "\<not> merging f" and "k < length (inputPaths f)"
  shows "derived (plan_pdf w f md n) (inputPaths f ! k) (outs_final w f n ! k)"
proof -
  let ?tr = "plan_pdf w f md n"
  have m: "outs_merge w f n = outs_pdf w f n" using assms(1) by (simp add: outs_merge_def)
  have "EvPdf (inputPaths f ! k) (outs_pdf w f n ! k) (pdf_options f (formats_of f))
      \<in> set (ev_pdf w f n)"
    unfolding ev_pdf_def using assms(2) by (intro map2_nth_mem) simp_all
  then have "EvPdf (inputPaths f ! k) (outs_pdf w f n ! k) (pdf_options f (formats_of f))
      \<in> set ?tr"
    by (simp add: plan_pdf_def)
  then have "derived ?tr (inputPaths f ! k) (outs_pdf w f n ! k)"
    by (rule by_pdf)
  with m have d1: "derived ?tr (inputPaths f ! k) (outs_merge w f n ! k)" by simp
  have d2: "derived ?tr (inputPaths f ! k) (outs_convert w f n ! k)"
  proof (cases "normalizing f")
    case False
    with d1 show ?thesis by (simp add: outs_convert_def)
  next
    case True
    have "EvConvert (formats_of f) (outs_merge w f n ! k) (outs_convert w f n ! k)
        \<in> set (map2 (EvConvert (formats_of f)) (outs_merge w f n) (outs_convert w f n))"
      using assms(2) m by (intro map2_nth_mem) simp_all
    with True have "EvConvert (formats_of f) (outs_merge w f n ! k) (outs_convert w f n ! k)
        \<in> set ?tr"
      by (simp add: plan_pdf_def ev_convert_def)
    with d1 show ?thesis by (rule by_convert)
  qed
  show ?thesis
  proof (cases "length (outs_convert w f n) > 1")
    case False
    with d2 show ?thesis by (simp add: outs_final_def)
  next
    case True
    have "EvRename (outs_convert w f n ! k) (inputPaths f ! k @ ''.pdf'')
        \<in> set (map2 (\<lambda>old i. EvRename old (i @ ''.pdf'')) (outs_convert w f n) (inputPaths f))"
      using assms(2) m by (intro map2_nth_mem) simp_all
    with True have "EvRename (outs_convert w f n ! k) (inputPaths f ! k @ ''.pdf'') \<in> set ?tr"
      by (simp add: plan_pdf_def ev_rename_def)
    with d2 have "derived ?tr (inputPaths f ! k) (inputPaths f ! k @ ''.pdf'')"
      by (rule by_rename)
    with True assms(2) show ?thesis by (simp add: outs_final_def)
  qed
qed

subsection \<open>The merge\<close>

lemma not_merge_elsewhere:
  assumes "ev \<in> set (plan_pdf w f md n)" and "is_merge ev"
  shows "ev \<in> set (ev_merge w f n)"
  using in_plan_pdf [OF assms(1)] assms(2)
  by (auto dest: in_ev_pdf in_ev_convert in_ev_metadata in_ev_rename)

lemma filter_merge_plan:
  "filter is_merge (plan_pdf w f md n) = ev_merge w f n"
proof -
  have a: "filter is_merge (ev_pdf w f n) = []"
    by (auto simp: filter_empty_conv dest: in_ev_pdf)
  have b: "filter is_merge (ev_convert w f n) = []"
    by (auto simp: filter_empty_conv dest: in_ev_convert)
  have c: "filter is_merge (ev_metadata w f md n) = []"
    by (auto simp: filter_empty_conv dest: in_ev_metadata)
  have d: "filter is_merge (ev_rename w f n) = []"
    by (auto simp: filter_empty_conv dest: in_ev_rename)
  have e: "filter is_merge (ev_merge w f n) = ev_merge w f n"
    by (simp add: ev_merge_def)
  show ?thesis
    by (simp add: plan_pdf_def a b c d e)
qed

subsection \<open>The two normalizations\<close>

lemma pdf_options_formats:
  "PdfFormats (pdf_options f fm) = (if nativePdfFormats f then fm else zeroValued)"
  by (simp add: pdf_options_def Let_def)

lemma convert_event_normalizing:
  assumes "convertRoute w f init_ctx = (r, s')" and "ev \<in> set (trace s')" and "is_convert ev"
  shows "normalizing f \<and> (\<exists>q p. ev = EvConvert (formats_of f) q p)"
proof -
  from convertRoute_prefix [OF assms(1)] assms(2)
  have "ev \<in> set (plan_pdf w f (metadata_of w f) 0)" by auto
  from in_plan_pdf [OF this] assms(3) show ?thesis
    by (auto dest: in_ev_pdf in_ev_merge in_ev_convert in_ev_metadata in_ev_rename)
qed

lemma native_event_native:
  assumes "convertRoute w f init_ctx = (r, s')" and "ev \<in> set (trace s')"
    and "natively_normalizes ev"
  shows "nativePdfFormats f"
proof -
  from assms(3) obtain i p opts where ev: "ev = EvPdf i p opts" and nz: "PdfFormats opts \<noteq> zeroValued"
    by (cases ev) auto
  from pdf_event_options [OF assms(1)] assms(2) ev
  have "opts = pdf_options f (formats_of f)" by blast
  with nz show ?thesis by (auto simp: pdf_options_formats split: if_splits)
qed


lemma outs_convert_converted:
  assumes "normalizing f" and "k < length (outs_convert w f n)"
  shows "EvConvert (formats_of f) (outs_merge w f n ! k) (outs_convert w f n ! k)
     \<in> set (ev_convert w f n)"
proof -
  from assms(2) have "EvConvert (formats_of f) (outs_merge w f n ! k) (outs_convert w f n ! k)
      \<in> set (map2 (EvConvert (formats_of f)) (outs_merge w f n) (outs_convert w f n))"
    by (intro map2_nth_mem) simp_all
  with assms(1) show ?thesis by (simp add: ev_convert_def)
qed

lemma outs_final_from_convert:
  assumes "out \<in> set (outs_final w f n)"
  shows "\<exists>k < length (outs_convert w f n).
     out = outs_convert w f n ! k
     \<or> EvRename (outs_convert w f n ! k) out \<in> set (ev_rename w f n)"
proof (cases "length (outs_convert w f n) > 1")
  case False
  with assms show ?thesis by (auto simp: outs_final_def in_set_conv_nth)
next
  case True
  then have len: "length (outs_convert w f n) = length (inputPaths f)"
    by (simp add: length_outs_merge split: if_splits)
  from assms True obtain k where k: "k < length (inputPaths f)"
    and out: "out = inputPaths f ! k @ ''.pdf''"
    by (auto simp: outs_final_def in_set_conv_nth)
  from k len have "EvRename (outs_convert w f n ! k) (inputPaths f ! k @ ''.pdf'')
      \<in> set (map2 (\<lambda>old i. EvRename old (i @ ''.pdf'')) (outs_convert w f n) (inputPaths f))"
    by (intro map2_nth_mem) simp_all
  with True out have "EvRename (outs_convert w f n ! k) out \<in> set (ev_rename w f n)"
    by (simp add: ev_rename_def)
  with k len show ?thesis by auto
qed

lemma prefix_contains_lower:
  assumes "sorted (map stage_rank (tr @ rest))" and "ev \<in> set tr"
    and "c \<in> set (tr @ rest)" and "stage_rank c < stage_rank ev"
  shows "c \<in> set tr"
proof (rule ccontr)
  assume "c \<notin> set tr"
  with assms(3) have "c \<in> set rest" by simp
  with assms(1,2) have "stage_rank ev \<le> stage_rank c"
    by (auto simp: sorted_append)
  with assms(4) show False by simp
qed

lemma converted_before_use:
  assumes run: "convertRoute w f init_ctx = (r, s')" and norm: "normalizing f"
    and ev: "ev \<in> set (trace s')" and rank: "2 < stage_rank ev"
    and p: "p \<in> set (outs_convert w f 0)"
  shows "\<exists>q. EvConvert (formats_of f) q p \<in> set (trace s')"
proof -
  from convertRoute_prefix [OF run] obtain rest where
    pl: "plan_pdf w f (metadata_of w f) 0 = trace s' @ rest" by auto
  from p obtain k where k: "k < length (outs_convert w f 0)" and pk: "p = outs_convert w f 0 ! k"
    by (auto simp: in_set_conv_nth)
  let ?c = "EvConvert (formats_of f) (outs_merge w f 0 ! k) p"
  from outs_convert_converted [OF norm k] pk
  have "?c \<in> set (plan_pdf w f (metadata_of w f) 0)" by (simp add: plan_pdf_def)
  with pl have c: "?c \<in> set (trace s' @ rest)" by simp
  from plan_pdf_sorted [of w f "metadata_of w f" 0] pl
  have s: "sorted (map stage_rank (trace s' @ rest))" by simp
  from rank have "stage_rank ?c < stage_rank ev" by simp
  from prefix_contains_lower [OF s ev c this] show ?thesis by blast
qed

lemma metadata_event_path:
  assumes "convertRoute w f init_ctx = (r, s')" and "EvWriteMetadata md p \<in> set (trace s')"
  shows "p \<in> set (outs_convert w f 0)"
proof -
  from convertRoute_prefix [OF assms(1)] assms(2)
  have "EvWriteMetadata md p \<in> set (plan_pdf w f (metadata_of w f) 0)" by auto
  from in_plan_pdf [OF this] have "EvWriteMetadata md p \<in> set (ev_metadata w f (metadata_of w f) 0)"
    by (auto dest: in_ev_pdf in_ev_merge in_ev_convert in_ev_rename)
  from in_ev_metadata [OF this] show ?thesis by auto
qed

lemma rename_event_path:
  assumes "convertRoute w f init_ctx = (r, s')" and "EvRename p out \<in> set (trace s')"
  shows "p \<in> set (outs_convert w f 0)"
proof -
  from convertRoute_prefix [OF assms(1)] assms(2)
  have "EvRename p out \<in> set (plan_pdf w f (metadata_of w f) 0)" by auto
  from in_plan_pdf [OF this] have "EvRename p out \<in> set (ev_rename w f 0)"
    by (auto dest: in_ev_pdf in_ev_merge in_ev_convert in_ev_metadata)
  then show ?thesis
    by (auto simp: ev_rename_def split: if_splits dest: set_zip_leftD)
qed

subsection \<open>The renaming\<close>


lemma derived_plan_docx:
  assumes "k < length (inputPaths f)"
  shows "derived (plan_docx w f n) (inputPaths f ! k) (outs_final_docx w f n ! k)"
proof -
  let ?tr = "plan_docx w f n"
  have len: "length (outs_docx w f n) = length (inputPaths f)" by (simp add: outs_docx_def)
  have "EvDocx (inputPaths f ! k) (outs_docx w f n ! k) \<in> set (ev_docx w f n)"
    unfolding ev_docx_def using assms len by (intro map2_nth_mem) simp_all
  then have "EvDocx (inputPaths f ! k) (outs_docx w f n ! k) \<in> set ?tr"
    by (simp add: plan_docx_def)
  then have d1: "derived ?tr (inputPaths f ! k) (outs_docx w f n ! k)"
    by (rule by_docx)
  show ?thesis
  proof (cases "length (outs_docx w f n) > 1")
    case False
    with d1 show ?thesis by (simp add: outs_final_docx_def)
  next
    case True
    have "EvRename (outs_docx w f n ! k) (inputPaths f ! k @ ''.docx'')
        \<in> set (map2 (\<lambda>old i. EvRename old (i @ ''.docx'')) (outs_docx w f n) (inputPaths f))"
      using assms len by (intro map2_nth_mem) simp_all
    with True have "EvRename (outs_docx w f n ! k) (inputPaths f ! k @ ''.docx'') \<in> set ?tr"
      by (simp add: plan_docx_def ev_rename_docx_def)
    with d1 have "derived ?tr (inputPaths f ! k) (inputPaths f ! k @ ''.docx'')"
      by (rule by_rename)
    with True assms show ?thesis by (simp add: outs_final_docx_def)
  qed
qed

subsection \<open>The concrete runs\<close>

lemmas model_defs = convertRoute_def pdf_pipeline_def pdf_stage_def merge_stage_def convert_stage_def
  metadata_stage_def rename_stage_def add_stage_def AddOutputPaths_def call_def GeneratePath_def
  pdf_body_def convert_body_def metadata_body_def rename_body_def metadata_custom_def
  pdf_options_def formats_of_def zeroValued_def init_ctx_def Let_def
  convertRouteDocx_def docx_stage_def docx_body_def

lemmas world_defs = world_ok_def gen0_def validate0_def json0_def meta_text_def quoted_def

lemmas witness_defs = world_defs form_ab_def opts_ab_def world_fail_b_def world_bad_ranges_def
  world_fail_rename_def world_fail_docx_def world_both_def world_same_text_def err_both_def form_abc_def form_ranges_def form_merge_def
  form_meta_def form_hwp_def opts_ranges_def fmt_a1b_def

lemma run_ab: "convertRoute world_ok form_ab init_ctx = (None, ctx_ok_ab)"
  by (simp add: model_defs witness_defs ctx_ok_ab_def)

lemma run_merge: "convertRoute world_ok form_merge init_ctx = (None, ctx_merge)"
  by (simp add: model_defs witness_defs ctx_merge_def)

lemma run_meta: "convertRoute world_ok form_meta init_ctx = (None, ctx_meta)"
  by (simp add: model_defs witness_defs ctx_meta_def)

lemma run_fail_b:
  "convertRoute world_fail_b form_abc init_ctx
     = (Some (Plain (Errorf ''convert to PDF: '' (ErrNew 3 ''conversion failed''))), ctx_fail_b)"
  by (simp add: model_defs witness_defs ctx_fail_b_def ErrInvalidPdfFormats_def
      ErrMalformedPageRanges_def)


lemma run_fail_rename:
  "convertRoute world_fail_rename form_ab init_ctx
     = (Some (Plain (Errorf ''rename output path: '' (ErrNew 4 ''rename failed''))), ctx_fail_rename)"
  by (simp add: model_defs witness_defs ctx_fail_rename_def)

lemma run_fail_docx:
  "convertRouteDocx world_fail_docx form_hwp init_ctx
     = (Some (WrapError (Errorf ''convert to DOCX: '' ErrInvalidPdfFormats) 500 ''Error''),
        ctx_fail_docx)"
  by (simp add: model_defs witness_defs ctx_fail_docx_def StatusInternalServerError_def)


lemma run_same_text:
  "convertRoute world_same_text form_ranges init_ctx
     = (Some (Plain (Errorf ''convert to PDF: '' (ErrNew 5 ''invalid PDF formats''))),
        ctx_bad_ranges)"
  by (simp add: model_defs witness_defs ctx_bad_ranges_def ErrInvalidPdfFormats_def
      ErrMalformedPageRanges_def)

section \<open>The claims\<close>

text \<open>
  C1: a run of the PDF route that succeeds on a form with at least one input path hands
  the response one output path per input path, the k-th output derived from the k-th input
  by the calls the run made (the conversion, then possibly the engine's conversion, then
  possibly the renaming), unless the merge flag is set and there are at least two input
  paths: then it hands over exactly one output path.
\<close>

theorem pdf_one_output_per_input:
  assumes "convertRoute w f init_ctx = (None, s')" and "inputPaths f \<noteq> []"
  shows "(if merge f \<and> 2 \<le> length (inputPaths f)
          then length (output_paths s') = 1
          else length (output_paths s') = length (inputPaths f)
             \<and> (\<forall>k < length (inputPaths f).
                   derived (trace s') (inputPaths f ! k) (output_paths s' ! k)))"
proof -
  from convertRoute_prefix [OF assms(1)]
  have tr: "trace s' = plan_pdf w f (metadata_of w f) 0"
    and o: "output_paths s' = outs_final w f 0"
    by auto
  have mg: "merging f \<longleftrightarrow> merge f \<and> 2 \<le> length (inputPaths f)"
    by (auto simp: merging_def)
  show ?thesis
    using derived_plan_pdf [of f _ w "metadata_of w f" 0] tr o mg
    by (auto simp: length_outs_final)
qed

theorem pdf_one_output_per_input_witness:
  "convertRoute world_ok form_ab init_ctx = (None, ctx_ok_ab)
   \<and> inputPaths form_ab \<noteq> []
   \<and> length (output_paths ctx_ok_ab) = length (inputPaths form_ab)
   \<and> derived (trace ctx_ok_ab) ''b.xlsx'' ''b.xlsx.pdf''"
proof -
  have ne: "inputPaths form_ab \<noteq> []" by (simp add: form_ab_def)
  have m: "\<not> (merge form_ab \<and> 2 \<le> length (inputPaths form_ab))" by (simp add: form_ab_def)
  from pdf_one_output_per_input [OF run_ab ne] m
  have l: "length (output_paths ctx_ok_ab) = length (inputPaths form_ab)"
    and d: "\<forall>k < length (inputPaths form_ab).
      derived (trace ctx_ok_ab) (inputPaths form_ab ! k) (output_paths ctx_ok_ab ! k)"
    by simp_all
  have "(1::nat) < length (inputPaths form_ab)" by (simp add: form_ab_def)
  with d have "derived (trace ctx_ok_ab) (inputPaths form_ab ! 1) (output_paths ctx_ok_ab ! 1)"
    by blast
  then have "derived (trace ctx_ok_ab) ''b.xlsx'' ''b.xlsx.pdf''"
    by (simp add: form_ab_def ctx_ok_ab_def)
  with run_ab ne l show ?thesis by simp
qed

text \<open>
  C2: in every run of the PDF route, \<open>engine.Merge\<close> is not called when the
  form has exactly one input path, whatever the merge flag; it is called exactly when the
  form was valid, the conversion loop has produced an output set of at least two paths and
  the merge flag is set; it is called at most once, and over the whole output set of the
  conversion loop.
\<close>

theorem merge_invoked_iff:
  assumes "convertRoute w f init_ctx = (r, s')"
  shows "(length (inputPaths f) = 1 \<longrightarrow> (\<forall>ev \<in> set (trace s'). \<not> is_merge ev))
     \<and> ((\<exists>ev \<in> set (trace s'). is_merge ev) \<longleftrightarrow>
          validate w (form_errors w f) = None
          \<and> (\<exists>outs s1. pdf_stage w f (formats_of f) init_ctx = (Inr outs, s1) \<and> 2 \<le> length outs)
          \<and> merge f)
     \<and> length (filter is_merge (trace s')) \<le> 1
     \<and> (\<forall>ps p. EvMerge ps p \<in> set (trace s') \<longrightarrow>
          (\<exists>s1. pdf_stage w f (formats_of f) init_ctx = (Inr ps, s1)))"
proof -
  let ?plan = "plan_pdf w f (metadata_of w f) 0"
  from convertRoute_cases [OF assms]
  show ?thesis
  proof
    assume "\<exists>ve. validate w (form_errors w f) = Some ve
      \<and> r = Some (Plain (Errorf ''validate form data: '' ve)) \<and> s' = init_ctx"
    then show ?thesis by (auto simp: init_ctx_def)
  next
    assume v: "validate w (form_errors w f) = None
      \<and> finishes w f init_ctx (plan_pdf w f (metadata_of w f) (next_id init_ctx))
           (outs_final w f (next_id init_ctx)) (r, s')"
    then obtain fail where run: "run_events w [] ?plan = (fail, trace s')"
      by (auto simp: finishes_def init_ctx_def)
    from run_events_prefix [OF run] obtain rest where pl: "?plan = trace s' @ rest" by auto
    obtain r1 s1 where st: "pdf_stage w f (formats_of f) init_ctx = (r1, s1)"
      by (cases "pdf_stage w f (formats_of f) init_ctx")
    from pdf_stage_runs [of w f init_ctx] st obtain fail1 where
      run1: "run_events w [] (ev_pdf w f 0) = (fail1, trace s1)"
      and f1: "\<And>ev e. fail1 = Some (ev, e) \<Longrightarrow> r1 = Inl (surface f ev e)"
      and ok1: "fail1 = None \<Longrightarrow> r1 = Inr (outs_pdf w f 0)"
      by (auto simp: runs_def init_ctx_def)
    have mem: "ev \<in> set (ev_merge w f 0)" if "ev \<in> set (trace s')" "is_merge ev" for ev
      using that pl not_merge_elsewhere [of ev w f "metadata_of w f" 0] by auto
    have K: "(\<exists>ev \<in> set (trace s'). is_merge ev) \<longleftrightarrow> fail1 = None \<and> merging f"
    proof (cases fail1)
      case (Some x)
      with run run1 have "trace s' = trace s1"
        by (simp add: plan_pdf_def run_events_append)
      moreover from run_events_prefix [OF run1] have "set (trace s1) \<subseteq> set (ev_pdf w f 0)"
        by auto
      ultimately have "\<forall>ev \<in> set (trace s'). \<not> is_merge ev"
        using in_ev_pdf [of _ w f 0] by fastforce
      with Some show ?thesis by auto
    next
      case None
      show ?thesis
      proof (cases "merging f")
        case True
        let ?m = "EvMerge (outs_pdf w f 0) (gen_path w (id_merge f 0) ''.pdf'')"
        from run run1 None True have "run_events w (trace s1)
            (?m # (ev_convert w f 0 @ ev_metadata w f (metadata_of w f) 0 @ ev_rename w f 0
               @ [EvAddOutputPaths (outs_final w f 0)])) = (fail, trace s')"
          by (simp add: plan_pdf_def run_events_append ev_merge_def)
        from run_events_first_mem [OF this] have "?m \<in> set (trace s')" .
        then have "\<exists>ev \<in> set (trace s'). is_merge ev" by (intro bexI [of _ ?m]) simp_all
        with None True show ?thesis by simp
      next
        case False
        then have "ev_merge w f 0 = []" by (simp add: ev_merge_def)
        with mem have "\<forall>ev \<in> set (trace s'). \<not> is_merge ev" by auto
        with False show ?thesis by auto
      qed
    qed
    have R: "(\<exists>outs s1. pdf_stage w f (formats_of f) init_ctx = (Inr outs, s1) \<and> 2 \<le> length outs)
          \<and> merge f \<longleftrightarrow> fail1 = None \<and> merging f"
    proof (cases fail1)
      case None
      with ok1 st show ?thesis by (auto simp: merging_def)
    next
      case (Some x)
      obtain ev e where "x = (ev, e)" by (cases x)
      with f1 Some st show ?thesis by auto
    qed
    have one: "length (inputPaths f) = 1 \<longrightarrow> (\<forall>ev \<in> set (trace s'). \<not> is_merge ev)"
      using K by (auto simp: merging_def)
    have cnt: "length (filter is_merge (trace s')) \<le> 1"
    proof -
      have "length (filter is_merge (trace s')) \<le> length (filter is_merge ?plan)"
        by (simp add: pl)
      also have "\<dots> \<le> 1" by (simp add: filter_merge_plan ev_merge_def)
      finally show ?thesis .
    qed
    have over: "\<exists>s1. pdf_stage w f (formats_of f) init_ctx = (Inr ps, s1)"
      if m: "EvMerge ps p \<in> set (trace s')" for ps p
    proof -
      from mem [OF m] have "EvMerge ps p \<in> set (ev_merge w f 0)" by simp
      from in_ev_merge [OF this] have ps: "ps = outs_pdf w f 0" by simp
      from m K have "fail1 = None" by force
      with ok1 st ps show ?thesis by simp
    qed
    from v K R one cnt over show ?thesis by blast
  qed
qed

theorem merge_invoked_iff_witness:
  "convertRoute world_ok form_merge init_ctx = (None, ctx_merge)
   \<and> (\<exists>ev \<in> set (trace ctx_merge). is_merge ev)
   \<and> validate world_ok (form_errors world_ok form_merge) = None
   \<and> (\<exists>outs s1. pdf_stage world_ok form_merge (formats_of form_merge) init_ctx = (Inr outs, s1)
         \<and> 2 \<le> length outs)
   \<and> merge form_merge
   \<and> length (filter is_merge (trace ctx_merge)) \<le> 1"
proof -
  have "\<exists>ev \<in> set (trace ctx_merge). is_merge ev"
    by (simp add: ctx_merge_def)
  with merge_invoked_iff [OF run_merge] run_merge show ?thesis by blast
qed

text \<open>
  C3: in every run of the PDF route, the Converter is never given a PDF format in a run in
  which \<open>engine.Convert\<close> is called: every Converter call carries the
  requested formats when \<open>nativePdfFormats\<close> is set and the zero value
  otherwise, and \<open>engine.Convert\<close> is called only when
  \<open>nativePdfFormats\<close> is unset and the requested formats are not the zero
  value. When they are not the zero value, one of the two is applied and never neither:
  with \<open>nativePdfFormats\<close> unset, every path that is stamped, renamed or
  handed to the response has been produced by \<open>engine.Convert\<close>, and a run
  that succeeds on at least one input has applied one of the two (with
  \<open>nativePdfFormats\<close> set, to every input).
\<close>

theorem normalization_exactly_once:
  assumes "convertRoute w f init_ctx = (r, s')"
  shows "\<not> (native_normalized (trace s') \<and> engine_normalized (trace s'))
     \<and> (\<forall>i p opts. EvPdf i p opts \<in> set (trace s') \<longrightarrow>
          PdfFormats opts = (if nativePdfFormats f then formats_of f else zeroValued))
     \<and> (\<forall>ev \<in> set (trace s'). is_convert ev \<longrightarrow>
          \<not> nativePdfFormats f \<and> formats_of f \<noteq> zeroValued
          \<and> (\<exists>q p. ev = EvConvert (formats_of f) q p))
     \<and> (\<not> nativePdfFormats f \<and> formats_of f \<noteq> zeroValued \<longrightarrow>
          (\<forall>md p. EvWriteMetadata md p \<in> set (trace s') \<longrightarrow>
              (\<exists>q. EvConvert (formats_of f) q p \<in> set (trace s')))
          \<and> (\<forall>p out. EvRename p out \<in> set (trace s') \<longrightarrow>
              (\<exists>q. EvConvert (formats_of f) q p \<in> set (trace s')))
          \<and> (\<forall>out \<in> set (output_paths s'). \<exists>q p.
              EvConvert (formats_of f) q p \<in> set (trace s')
              \<and> (out = p \<or> EvRename p out \<in> set (trace s'))))
     \<and> (r = None \<and> inputPaths f \<noteq> [] \<and> formats_of f \<noteq> zeroValued \<longrightarrow>
          (native_normalized (trace s') \<or> engine_normalized (trace s'))
          \<and> (nativePdfFormats f \<longrightarrow>
                (\<forall>k < length (inputPaths f). \<exists>p opts.
                    EvPdf (inputPaths f ! k) p opts \<in> set (trace s')
                    \<and> PdfFormats opts = formats_of f)))"
proof -
  let ?plan = "plan_pdf w f (metadata_of w f) 0"
  from convertRoute_prefix [OF assms] obtain rest where
    pl: "?plan = trace s' @ rest"
    and okk: "r = None \<longrightarrow> rest = [] \<and> output_paths s' = outs_final w f 0"
    by auto
  have never_both: "\<not> (native_normalized (trace s') \<and> engine_normalized (trace s'))"
  proof
    assume b: "native_normalized (trace s') \<and> engine_normalized (trace s')"
    then obtain e1 e2 where "e1 \<in> set (trace s')" "natively_normalizes e1"
      "e2 \<in> set (trace s')" "is_convert e2"
      by (auto simp: native_normalized_def engine_normalized_def list_ex_iff)
    with native_event_native [OF assms] convert_event_normalizing [OF assms]
    show False by (auto simp: normalizing_def)
  qed
  have pdfs: "PdfFormats opts = (if nativePdfFormats f then formats_of f else zeroValued)"
    if "EvPdf i p opts \<in> set (trace s')" for i p opts
    using pdf_event_options [OF assms that] by (simp add: pdf_options_formats)
  have convs: "\<not> nativePdfFormats f \<and> formats_of f \<noteq> zeroValued
      \<and> (\<exists>q p. ev = EvConvert (formats_of f) q p)"
    if "ev \<in> set (trace s')" "is_convert ev" for ev
    using convert_event_normalizing [OF assms that] by (simp add: normalizing_def)
  have post: "(\<forall>md p. EvWriteMetadata md p \<in> set (trace s') \<longrightarrow>
              (\<exists>q. EvConvert (formats_of f) q p \<in> set (trace s')))
          \<and> (\<forall>p out. EvRename p out \<in> set (trace s') \<longrightarrow>
              (\<exists>q. EvConvert (formats_of f) q p \<in> set (trace s')))
          \<and> (\<forall>out \<in> set (output_paths s'). \<exists>q p.
              EvConvert (formats_of f) q p \<in> set (trace s')
              \<and> (out = p \<or> EvRename p out \<in> set (trace s')))"
    if nn: "\<not> nativePdfFormats f" and nz: "formats_of f \<noteq> zeroValued"
  proof -
    from nn nz have norm: "normalizing f" by (simp add: normalizing_def)
    have m: "\<exists>q. EvConvert (formats_of f) q p \<in> set (trace s')"
      if e: "EvWriteMetadata md p \<in> set (trace s')" for md p
      using converted_before_use [OF assms norm e _ metadata_event_path [OF assms e]] by simp
    have rn: "\<exists>q. EvConvert (formats_of f) q p \<in> set (trace s')"
      if e: "EvRename p out \<in> set (trace s')" for p out
      using converted_before_use [OF assms norm e _ rename_event_path [OF assms e]] by simp
    have outp: "\<exists>q p. EvConvert (formats_of f) q p \<in> set (trace s')
          \<and> (out = p \<or> EvRename p out \<in> set (trace s'))" if o: "out \<in> set (output_paths s')" for out
    proof (cases r)
      case (Some e)
      with convertRoute_error_outputs assms have "output_paths s' = []"
        by blast
      with o show ?thesis by simp
    next
      case None
      with okk pl have tr: "trace s' = ?plan" and oo: "output_paths s' = outs_final w f 0"
        by auto
      from o oo have "out \<in> set (outs_final w f 0)" by simp
      from outs_final_from_convert [OF this] obtain k where
        k: "k < length (outs_convert w f 0)"
        and c: "out = outs_convert w f 0 ! k
          \<or> EvRename (outs_convert w f 0 ! k) out \<in> set (ev_rename w f 0)"
        by blast
      from c have c': "out = outs_convert w f 0 ! k
          \<or> EvRename (outs_convert w f 0 ! k) out \<in> set (trace s')"
        by (auto simp: tr plan_pdf_def)
      from outs_convert_converted [OF norm k]
      have "EvConvert (formats_of f) (outs_merge w f 0 ! k) (outs_convert w f 0 ! k)
          \<in> set (trace s')"
        by (simp add: tr plan_pdf_def)
      with c' show ?thesis by blast
    qed
    from m rn outp show ?thesis by blast
  qed
  have fin: "(native_normalized (trace s') \<or> engine_normalized (trace s'))
          \<and> (nativePdfFormats f \<longrightarrow>
                (\<forall>k < length (inputPaths f). \<exists>p opts.
                    EvPdf (inputPaths f ! k) p opts \<in> set (trace s')
                    \<and> PdfFormats opts = formats_of f))"
    if ok: "r = None" and ne: "inputPaths f \<noteq> []" and nz: "formats_of f \<noteq> zeroValued"
  proof -
    from okk pl ok have tr: "trace s' = ?plan" by auto
    have pdf_k: "EvPdf (inputPaths f ! k) (outs_pdf w f 0 ! k) (pdf_options f (formats_of f))
        \<in> set (trace s')" if "k < length (inputPaths f)" for k
    proof -
      have "EvPdf (inputPaths f ! k) (outs_pdf w f 0 ! k) (pdf_options f (formats_of f))
          \<in> set (ev_pdf w f 0)"
        unfolding ev_pdf_def using that by (intro map2_nth_mem) simp_all
      then show ?thesis by (simp add: tr plan_pdf_def)
    qed
    show ?thesis
    proof (cases "nativePdfFormats f")
      case True
      from ne have "0 < length (inputPaths f)" by simp
      from pdf_k [OF this] True nz have "native_normalized (trace s')"
        by (auto simp: native_normalized_def list_ex_iff pdf_options_formats
            intro!: bexI [of _ "EvPdf (inputPaths f ! 0) (outs_pdf w f 0 ! 0)
              (pdf_options f (formats_of f))"])
      moreover have "\<exists>p opts. EvPdf (inputPaths f ! k) p opts \<in> set (trace s')
          \<and> PdfFormats opts = formats_of f" if "k < length (inputPaths f)" for k
        using pdf_k [OF that] True pdf_options_formats [of f "formats_of f"] by metis
      ultimately show ?thesis using True by simp
    next
      case False
      with nz have norm: "normalizing f" by (simp add: normalizing_def)
      have pos: "0 < length (outs_convert w f 0)"
        using ne by (simp add: length_outs_merge)
      from outs_convert_converted [OF norm pos]
      have "EvConvert (formats_of f) (outs_merge w f 0 ! 0) (outs_convert w f 0 ! 0)
          \<in> set (trace s')"
        by (simp add: tr plan_pdf_def)
      then have "engine_normalized (trace s')"
        by (auto simp: engine_normalized_def list_ex_iff
            intro!: bexI [of _ "EvConvert (formats_of f) (outs_merge w f 0 ! 0)
              (outs_convert w f 0 ! 0)"])
      with False show ?thesis by simp
    qed
  qed
  from never_both pdfs convs post fin show ?thesis by blast
qed

theorem normalization_exactly_once_witness:
  "convertRoute world_ok form_meta init_ctx = (None, ctx_meta)
   \<and> inputPaths form_meta \<noteq> [] \<and> formats_of form_meta \<noteq> zeroValued
   \<and> \<not> nativePdfFormats form_meta
   \<and> \<not> native_normalized (trace ctx_meta) \<and> engine_normalized (trace ctx_meta)
   \<and> output_paths ctx_meta = [''/tmp/xx.pdf'']
   \<and> (\<exists>q p. EvConvert (formats_of form_meta) q p \<in> set (trace ctx_meta)
          \<and> (''/tmp/xx.pdf'' = p \<or> EvRename p ''/tmp/xx.pdf'' \<in> set (trace ctx_meta)))"
proof -
  have a: "inputPaths form_meta \<noteq> []" "formats_of form_meta \<noteq> zeroValued"
    "\<not> nativePdfFormats form_meta"
    by (simp_all add: form_meta_def form_ab_def formats_of_def zeroValued_def)
  from normalization_exactly_once [OF run_meta] a
  have b: "\<not> (native_normalized (trace ctx_meta) \<and> engine_normalized (trace ctx_meta))"
    and c: "native_normalized (trace ctx_meta) \<or> engine_normalized (trace ctx_meta)"
    and d: "\<forall>out \<in> set (output_paths ctx_meta). \<exists>q p.
          EvConvert (formats_of form_meta) q p \<in> set (trace ctx_meta)
          \<and> (out = p \<or> EvRename p out \<in> set (trace ctx_meta))"
    by simp_all
  have e: "engine_normalized (trace ctx_meta)"
    by (simp add: engine_normalized_def ctx_meta_def)
  with b have n: "\<not> native_normalized (trace ctx_meta)" by simp
  have o: "output_paths ctx_meta = [''/tmp/xx.pdf'']" by (simp add: ctx_meta_def)
  with d have "\<exists>q p. EvConvert (formats_of form_meta) q p \<in> set (trace ctx_meta)
          \<and> (''/tmp/xx.pdf'' = p \<or> EvRename p ''/tmp/xx.pdf'' \<in> set (trace ctx_meta))"
    by simp
  with run_meta a e n o show ?thesis by simp
qed

text \<open>
  C4: in every run of the PDF route, no call of \<open>engine.Convert\<close> and no call
  of the Converter follows a call of \<open>engine.WriteMetadata\<close>; and when the
  engine's conversion stage runs (\<open>nativePdfFormats\<close> unset, formats not the
  zero value), the file that \<open>engine.WriteMetadata\<close> is called on is the
  output of a call of \<open>engine.Convert\<close> made before it.
\<close>

theorem metadata_after_normalization:
  assumes "convertRoute w f init_ctx = (r, s')"
    and "trace s' = pre @ EvWriteMetadata md p # post"
  shows "(\<forall>ev \<in> set post. \<not> is_convert ev \<and> \<not> is_pdf ev)
     \<and> (\<not> nativePdfFormats f \<and> formats_of f \<noteq> zeroValued \<longrightarrow>
          (\<exists>q. EvConvert (formats_of f) q p \<in> set pre))"
proof -
  let ?e = "EvWriteMetadata md p"
  have srt: "sorted (map stage_rank (pre @ ?e # post))"
    using convertRoute_sorted [OF assms(1)] assms(2) by simp
  have after: "\<not> is_convert ev \<and> \<not> is_pdf ev" if "ev \<in> set post" for ev
    using sorted_rank_after [OF srt that] by (cases ev) auto
  have norm: "\<exists>q. EvConvert (formats_of f) q p \<in> set pre" if nz: "normalizing f"
  proof -
    from convertRoute_prefix [OF assms(1)] obtain rest where
      pl: "plan_pdf w f (metadata_of w f) 0 = pre @ ?e # post @ rest"
      using assms(2) by auto
    then have "?e \<in> set (plan_pdf w f (metadata_of w f) 0)" by simp
    from in_plan_pdf [OF this] have "?e \<in> set (ev_metadata w f (metadata_of w f) 0)"
      by (auto dest: in_ev_pdf in_ev_merge in_ev_convert in_ev_rename)
    from in_ev_metadata [OF this] have p: "p \<in> set (outs_convert w f 0)" by auto
    then obtain k where k: "k < length (outs_convert w f 0)" and pk: "p = outs_convert w f 0 ! k"
      by (auto simp: in_set_conv_nth)
    let ?c = "EvConvert (formats_of f) (outs_merge w f 0 ! k) p"
    from k have "EvConvert (formats_of f) (outs_merge w f 0 ! k) (outs_convert w f 0 ! k)
        \<in> set (map2 (EvConvert (formats_of f)) (outs_merge w f 0) (outs_convert w f 0))"
      by (intro map2_nth_mem) simp_all
    with pk nz have "?c \<in> set (ev_convert w f 0)"
      by (simp add: ev_convert_def)
    then have "?c \<in> set (plan_pdf w f (metadata_of w f) 0)" by (simp add: plan_pdf_def)
    with pl have "?c \<in> set pre \<or> ?c \<in> set (post @ rest)" by auto
    moreover have "?c \<notin> set (post @ rest)"
    proof
      assume "?c \<in> set (post @ rest)"
      moreover from plan_pdf_sorted [of w f "metadata_of w f" 0] pl
      have "sorted (map stage_rank (pre @ ?e # (post @ rest)))" by simp
      ultimately have "stage_rank ?e \<le> stage_rank ?c"
        by (rule sorted_rank_after [rotated])
      then show False by simp
    qed
    ultimately show ?thesis by blast
  qed
  from after norm show ?thesis by (auto simp: normalizing_def)
qed

theorem metadata_after_normalization_witness:
  "convertRoute world_ok form_meta init_ctx = (None, ctx_meta)
   \<and> trace ctx_meta = [EvPdf ''a.docx'' ''/tmp/x.pdf'' opts_ab,
         EvConvert fmt_a1b ''/tmp/x.pdf'' ''/tmp/xx.pdf'']
       @ EvWriteMetadata [(''Author'', quoted ''me'')] ''/tmp/xx.pdf''
       # [EvAddOutputPaths [''/tmp/xx.pdf'']]
   \<and> \<not> is_convert (EvAddOutputPaths [''/tmp/xx.pdf''])
   \<and> \<not> is_pdf (EvAddOutputPaths [''/tmp/xx.pdf''])
   \<and> (\<exists>q. EvConvert (formats_of form_meta) q ''/tmp/xx.pdf''
         \<in> set [EvPdf ''a.docx'' ''/tmp/x.pdf'' opts_ab,
             EvConvert fmt_a1b ''/tmp/x.pdf'' ''/tmp/xx.pdf''])"
proof -
  have t: "trace ctx_meta = [EvPdf ''a.docx'' ''/tmp/x.pdf'' opts_ab,
         EvConvert fmt_a1b ''/tmp/x.pdf'' ''/tmp/xx.pdf'']
       @ EvWriteMetadata [(''Author'', quoted ''me'')] ''/tmp/xx.pdf''
       # [EvAddOutputPaths [''/tmp/xx.pdf'']]"
    by (simp add: ctx_meta_def)
  have a: "\<not> nativePdfFormats form_meta \<and> formats_of form_meta \<noteq> zeroValued"
    by (simp add: form_meta_def form_ab_def formats_of_def zeroValued_def)
  from metadata_after_normalization [OF run_meta t] a
  have "\<forall>ev \<in> set [EvAddOutputPaths [''/tmp/xx.pdf'']]. \<not> is_convert ev \<and> \<not> is_pdf ev"
    and "\<exists>q. EvConvert (formats_of form_meta) q ''/tmp/xx.pdf''
         \<in> set [EvPdf ''a.docx'' ''/tmp/x.pdf'' opts_ab,
             EvConvert fmt_a1b ''/tmp/x.pdf'' ''/tmp/xx.pdf'']"
    by blast+
  with run_meta t show ?thesis by simp
qed



text \<open>
  C6: in every run of the PDF route, when a call of the Converter, of
  \<open>engine.Convert\<close> or of \<open>engine.WriteMetadata\<close> returns an
  error, it is the last call of the run (the stage is not invoked on a later file, and no
  later stage runs), the handler returns an error and no output path is handed to the
  response.
\<close>

theorem per_file_failure_aborts:
  assumes "convertRoute w f init_ctx = (r, s')"
    and "trace s' = pre @ ev # post"
    and "is_pdf ev \<or> is_convert ev \<or> is_metadata ev"
    and "respond w pre ev = Some e"
  shows "post = [] \<and> r \<noteq> None \<and> output_paths s' = []"
  using convertRoute_failure [OF assms(1,2,4)] by simp

theorem per_file_failure_aborts_witness:
  "convertRoute world_fail_b form_abc init_ctx
     = (Some (Plain (Errorf ''convert to PDF: '' (ErrNew 3 ''conversion failed''))), ctx_fail_b)
   \<and> inputPaths form_abc = [''a.docx'', ''b.xlsx'', ''c.odt'']
   \<and> trace ctx_fail_b = [EvPdf ''a.docx'' ''/tmp/x.pdf'' opts_ab]
        @ EvPdf ''b.xlsx'' ''/tmp/xx.pdf'' opts_ab # []
   \<and> respond world_fail_b [EvPdf ''a.docx'' ''/tmp/x.pdf'' opts_ab]
        (EvPdf ''b.xlsx'' ''/tmp/xx.pdf'' opts_ab) = Some (ErrNew 3 ''conversion failed'')
   \<and> output_paths ctx_fail_b = []"
proof -
  have t: "trace ctx_fail_b = [EvPdf ''a.docx'' ''/tmp/x.pdf'' opts_ab]
        @ EvPdf ''b.xlsx'' ''/tmp/xx.pdf'' opts_ab # []"
    by (simp add: ctx_fail_b_def)
  have k: "is_pdf (EvPdf ''b.xlsx'' ''/tmp/xx.pdf'' opts_ab)
      \<or> is_convert (EvPdf ''b.xlsx'' ''/tmp/xx.pdf'' opts_ab)
      \<or> is_metadata (EvPdf ''b.xlsx'' ''/tmp/xx.pdf'' opts_ab)"
    by simp
  have r: "respond world_fail_b [EvPdf ''a.docx'' ''/tmp/x.pdf'' opts_ab]
        (EvPdf ''b.xlsx'' ''/tmp/xx.pdf'' opts_ab) = Some (ErrNew 3 ''conversion failed'')"
    by (simp add: world_fail_b_def world_ok_def)
  have i: "inputPaths form_abc = [''a.docx'', ''b.xlsx'', ''c.odt'']"
    by (simp add: form_abc_def)
  from per_file_failure_aborts [OF run_fail_b t k r] run_fail_b t r i show ?thesis by simp
qed




text \<open>
  C8: in every run of either route, when a call of \<open>ctx.Rename\<close> returns an
  error, it is the last call of the run, every call before it succeeded, the handler
  returns the error wrapped as a plain error, \<open>ctx.AddOutputPaths\<close> is never
  called and no output path is handed to the response.
\<close>

theorem rename_failure_aborts:
  assumes "convertRoute w f init_ctx = (r, s') \<or> convertRouteDocx w f init_ctx = (r, s')"
    and "trace s' = pre @ EvRename a b # post"
    and "respond w pre (EvRename a b) = Some e"
  shows "post = [] \<and> r = Some (Plain (Errorf ''rename output path: '' e))
     \<and> output_paths s' = [] \<and> (\<forall>ev \<in> set (trace s'). \<not> is_add ev)
     \<and> (\<forall>pre1 ev1 post1. pre = pre1 @ ev1 # post1 \<longrightarrow> respond w pre1 ev1 = None)"
proof -
  have earlier: "respond w pre1 ev1 = None" if "pre = pre1 @ ev1 # post1" for pre1 ev1 post1
  proof -
    from that assms(2) have t: "trace s' = pre1 @ ev1 # (post1 @ EvRename a b # post)" by simp
    from assms(1) show ?thesis
      using convertRoute_earlier_ok [OF _ t] convertRouteDocx_earlier_ok [OF _ t] by blast
  qed
  from assms(1) have f: "post = [] \<and> r = Some (surface f (EvRename a b) e) \<and> output_paths s' = []"
    using convertRoute_failure [OF _ assms(2,3)] convertRouteDocx_failure [OF _ assms(2,3)]
    by blast
  from assms(1) have "sorted (map stage_rank (trace s'))"
    using convertRoute_sorted convertRouteDocx_sorted by blast
  from no_add_before_rename [OF this, of pre a b] assms(2) f earlier
  show ?thesis by simp
qed

theorem rename_failure_aborts_witness:
  "convertRoute world_fail_rename form_ab init_ctx
     = (Some (Plain (Errorf ''rename output path: '' (ErrNew 4 ''rename failed''))), ctx_fail_rename)
   \<and> respond world_fail_rename
        [EvPdf ''a.docx'' ''/tmp/x.pdf'' opts_ab, EvPdf ''b.xlsx'' ''/tmp/xx.pdf'' opts_ab,
         EvRename ''/tmp/x.pdf'' ''a.docx.pdf'']
        (EvRename ''/tmp/xx.pdf'' ''b.xlsx.pdf'') = Some (ErrNew 4 ''rename failed'')
   \<and> output_paths ctx_fail_rename = []
   \<and> \<not> list_ex is_add (trace ctx_fail_rename)"
proof -
  have t: "trace ctx_fail_rename
      = [EvPdf ''a.docx'' ''/tmp/x.pdf'' opts_ab, EvPdf ''b.xlsx'' ''/tmp/xx.pdf'' opts_ab,
         EvRename ''/tmp/x.pdf'' ''a.docx.pdf'']
        @ EvRename ''/tmp/xx.pdf'' ''b.xlsx.pdf'' # []"
    by (simp add: ctx_fail_rename_def)
  have r: "respond world_fail_rename
        [EvPdf ''a.docx'' ''/tmp/x.pdf'' opts_ab, EvPdf ''b.xlsx'' ''/tmp/xx.pdf'' opts_ab,
         EvRename ''/tmp/x.pdf'' ''a.docx.pdf'']
        (EvRename ''/tmp/xx.pdf'' ''b.xlsx.pdf'') = Some (ErrNew 4 ''rename failed'')"
    by (simp add: world_fail_rename_def world_ok_def)
  have run: "convertRoute world_fail_rename form_ab init_ctx
        = (Some (Plain (Errorf ''rename output path: '' (ErrNew 4 ''rename failed''))), ctx_fail_rename)
      \<or> convertRouteDocx world_fail_rename form_ab init_ctx
        = (Some (Plain (Errorf ''rename output path: '' (ErrNew 4 ''rename failed''))), ctx_fail_rename)"
    using run_fail_rename by simp
  from rename_failure_aborts [OF run t r] run_fail_rename r show ?thesis
    by (simp add: list_ex_iff)
qed

text \<open>
  C9: in every run of the DOCX route, an error of the Converter, whatever it is, ends the
  run with the same wrapped error (status 500, message \<open>Error\<close>) and no output
  path; the route makes no call other than the conversion, the renaming and the handing
  over of the output paths; and a run that succeeds hands over one output path per input,
  the k-th derived from the k-th input, named after the inputs with \<open>.docx\<close>
  appended when there are several, and as issued by \<open>ctx.GeneratePath\<close>,
  without any renaming, when there is one.
\<close>

theorem docx_uniform_failure:
  assumes "convertRouteDocx w f init_ctx = (r, s')"
  shows "(\<forall>pre i p post e.
            trace s' = pre @ EvDocx i p # post \<and> respond w pre (EvDocx i p) = Some e \<longrightarrow>
              post = [] \<and> output_paths s' = []
              \<and> r = Some (WrapError (Errorf ''convert to DOCX: '' e) 500 ''Error''))
     \<and> (\<forall>ev \<in> set (trace s'). is_docx ev \<or> is_rename ev \<or> is_add ev)
     \<and> (r = None \<longrightarrow>
            length (output_paths s') = length (inputPaths f)
            \<and> (\<forall>k < length (inputPaths f).
                  derived (trace s') (inputPaths f ! k) (output_paths s' ! k))
            \<and> (length (inputPaths f) > 1 \<longrightarrow>
                  output_paths s' = map (\<lambda>i. i @ ''.docx'') (inputPaths f))
            \<and> (length (inputPaths f) = 1 \<longrightarrow>
                  (\<exists>k. output_paths s' = [gen_path w k ''.docx''])
                  \<and> (\<forall>ev \<in> set (trace s'). \<not> is_rename ev)))"
proof -
  have fails: "post = [] \<and> output_paths s' = []
      \<and> r = Some (WrapError (Errorf ''convert to DOCX: '' e) 500 ''Error'')"
    if "trace s' = pre @ EvDocx i p # post" "respond w pre (EvDocx i p) = Some e"
    for pre i p post e
    using convertRouteDocx_failure [OF assms that]
    by (simp add: StatusInternalServerError_def)
  from convertRouteDocx_prefix [OF assms] obtain rest where
    pl: "plan_docx w f 0 = trace s' @ rest"
    and ok: "r = None \<longrightarrow> rest = [] \<and> output_paths s' = outs_final_docx w f 0"
    by auto
  have kinds: "is_docx ev \<or> is_rename ev \<or> is_add ev" if "ev \<in> set (trace s')" for ev
  proof -
    from that pl have "ev \<in> set (plan_docx w f 0)" by auto
    from in_plan_docx [OF this] show ?thesis
      by (auto dest: in_ev_docx in_ev_rename_docx)
  qed
  have succ: "length (output_paths s') = length (inputPaths f)
            \<and> (\<forall>k < length (inputPaths f).
                  derived (trace s') (inputPaths f ! k) (output_paths s' ! k))
            \<and> (length (inputPaths f) > 1 \<longrightarrow>
                  output_paths s' = map (\<lambda>i. i @ ''.docx'') (inputPaths f))
            \<and> (length (inputPaths f) = 1 \<longrightarrow>
                  (\<exists>k. output_paths s' = [gen_path w k ''.docx''])
                  \<and> (\<forall>ev \<in> set (trace s'). \<not> is_rename ev))" if "r = None"
  proof -
    from that ok pl have tr: "trace s' = plan_docx w f 0"
      and o: "output_paths s' = outs_final_docx w f 0" by auto
    have l: "length (output_paths s') = length (inputPaths f)"
      by (simp add: o outs_final_docx_def outs_docx_def)
    have d: "\<forall>k < length (inputPaths f).
        derived (trace s') (inputPaths f ! k) (output_paths s' ! k)"
      using derived_plan_docx [of _ f w 0] by (simp add: tr o)
    have m: "length (inputPaths f) > 1 \<longrightarrow>
        output_paths s' = map (\<lambda>i. i @ ''.docx'') (inputPaths f)"
      by (simp add: o outs_final_docx_def outs_docx_def)
    have s: "(\<exists>k. output_paths s' = [gen_path w k ''.docx''])
        \<and> (\<forall>ev \<in> set (trace s'). \<not> is_rename ev)" if one: "length (inputPaths f) = 1"
    proof -
      from one have "output_paths s' = [gen_path w 0 ''.docx'']"
        by (simp add: o outs_final_docx_def outs_docx_def)
      moreover from one have "ev_rename_docx w f 0 = []"
        by (simp add: ev_rename_docx_def outs_docx_def)
      then have "\<forall>ev \<in> set (trace s'). \<not> is_rename ev"
        by (auto simp: tr plan_docx_def dest: in_ev_docx)
      ultimately show ?thesis by blast
    qed
    from l d m s show ?thesis by blast
  qed
  from fails kinds succ show ?thesis by blast
qed

theorem docx_uniform_failure_witness:
  "convertRouteDocx world_fail_docx form_hwp init_ctx
     = (Some (WrapError (Errorf ''convert to DOCX: '' ErrInvalidPdfFormats) 500 ''Error''),
        ctx_fail_docx)
   \<and> respond world_fail_docx [EvDocx ''a.hwp'' ''/tmp/x.docx'']
        (EvDocx ''b.hwp'' ''/tmp/xx.docx'') = Some ErrInvalidPdfFormats
   \<and> output_paths ctx_fail_docx = []
   \<and> list_all (\<lambda>ev. is_docx ev \<or> is_rename ev \<or> is_add ev) (trace ctx_fail_docx)"
proof -
  have t: "trace ctx_fail_docx = [EvDocx ''a.hwp'' ''/tmp/x.docx'']
      @ EvDocx ''b.hwp'' ''/tmp/xx.docx'' # []"
    by (simp add: ctx_fail_docx_def)
  have r: "respond world_fail_docx [EvDocx ''a.hwp'' ''/tmp/x.docx'']
        (EvDocx ''b.hwp'' ''/tmp/xx.docx'') = Some ErrInvalidPdfFormats"
    by (simp add: world_fail_docx_def world_ok_def)
  from docx_uniform_failure [OF run_fail_docx] t r
  have "output_paths ctx_fail_docx = []"
    and "\<forall>ev \<in> set (trace ctx_fail_docx). is_docx ev \<or> is_rename ev \<or> is_add ev"
    by blast+
  with run_fail_docx r show ?thesis by (simp add: list_all_iff)
qed

text \<open>
  C10: when the metadata field is not empty and \<open>json.Unmarshal\<close> returns an
  error on it, and \<open>FormData.Validate\<close> fails whenever an error was recorded
  while the form was read, the PDF route returns the validation error, which wraps the
  unmarshalling error, before any stage runs: the context is unchanged, so no call was
  made (the Converter was not invoked) and no output path was added.
\<close>

theorem invalid_metadata_rejected:
  assumes "metadataValue f \<noteq> []"
    and "fst (json_unmarshal w (metadataValue f)) = Some e"
    and "\<forall>errs. errs \<noteq> [] \<longrightarrow> validate w errs \<noteq> None"
  shows "\<exists>ve. validate w (bindErrors f @ [Errorf ''unmarshal metadata: '' e]) = Some ve
     \<and> convertRoute w f init_ctx = (Some (Plain (Errorf ''validate form data: '' ve)), init_ctx)
     \<and> trace (snd (convertRoute w f init_ctx)) = []
     \<and> output_paths (snd (convertRoute w f init_ctx)) = []"
proof -
  from assms(3) obtain ve where
    ve: "validate w (bindErrors f @ [Errorf ''unmarshal metadata: '' e]) = Some ve"
    by fastforce
  from assms(1,2) have "metadata_custom w (metadataValue f)
      = (Some (Errorf ''unmarshal metadata: '' e), snd (json_unmarshal w (metadataValue f)))"
    by (cases "json_unmarshal w (metadataValue f)") (auto simp: metadata_custom_def)
  with ve have "convertRoute w f init_ctx
      = (Some (Plain (Errorf ''validate form data: '' ve)), init_ctx)"
    by (simp add: convertRoute_def)
  with ve show ?thesis by (simp add: init_ctx_def)
qed

theorem invalid_metadata_rejected_witness:
  "metadataValue form_badmeta \<noteq> []
   \<and> fst (json_unmarshal world_ok (metadataValue form_badmeta)) = Some (ErrNew 2 ''invalid character'')
   \<and> convertRoute world_ok form_badmeta init_ctx
       = (Some (Plain (Errorf ''validate form data: ''
            (Errorf ''invalid form data: ''
              (Errorf ''unmarshal metadata: '' (ErrNew 2 ''invalid character''))))), init_ctx)"
proof -
  have a: "metadataValue form_badmeta \<noteq> []"
    by (simp add: form_badmeta_def)
  have b: "fst (json_unmarshal world_ok (metadataValue form_badmeta))
      = Some (ErrNew 2 ''invalid character'')"
    by (simp add: form_badmeta_def world_defs)
  have c: "\<forall>errs. errs \<noteq> [] \<longrightarrow> validate world_ok errs \<noteq> None"
    by (simp add: world_defs split: list.splits)
  from invalid_metadata_rejected [OF a b c] a b show ?thesis
    by (simp add: world_defs form_badmeta_def form_ab_def)
qed

end
